theory Spec2Isabelle
  imports Main
begin

section \<open>The realip handler: data model\<close>

text \<open>
  The handler of \<^verbatim>\<open>module.go\<close> calls Go's standard library (\<^verbatim>\<open>net\<close>,
  \<^verbatim>\<open>strings\<close>, \<^verbatim>\<open>net/http\<close>). Those functions are not part of the repository, so the
  model takes them as the fields of a record and every theorem holds for any library
  behaviour. The types of IP addresses and of networks are type parameters.

  \<^item> \<open>ParseIP\<close>: \<^verbatim>\<open>net.ParseIP\<close>; \<open>None\<close> is Go's \<^verbatim>\<open>nil\<close>.
  \<^item> \<open>ParseCIDR\<close>: \<^verbatim>\<open>net.ParseCIDR\<close>; \<open>Inl\<close> carries the text of the error.
  \<^item> \<open>Contains\<close>: \<^verbatim>\<open>(*net.IPNet).Contains\<close>.
  \<^item> \<open>SplitHostPort\<close>: \<^verbatim>\<open>net.SplitHostPort\<close>, with its three results (host, port, err).
  \<^item> \<open>JoinHostPort\<close>: \<^verbatim>\<open>net.JoinHostPort\<close>.
  \<^item> \<open>TrimSpace\<close>: \<^verbatim>\<open>strings.TrimSpace\<close>.
  \<^item> \<open>CanonicalHeaderKey\<close>: the key canonicalisation that \<^verbatim>\<open>http.Header.Get\<close> applies.
\<close>

record ('ip, 'net) netlib =
  ParseIP :: "string \<Rightarrow> 'ip option"
  ParseCIDR :: "string \<Rightarrow> string + ('ip \<times> 'net)"
  Contains :: "'net \<Rightarrow> 'ip \<Rightarrow> bool"
  SplitHostPort :: "string \<Rightarrow> string \<times> string \<times> string option"
  JoinHostPort :: "string \<Rightarrow> string \<Rightarrow> string"
  TrimSpace :: "string \<Rightarrow> string"
  CanonicalHeaderKey :: "string \<Rightarrow> string"

text \<open>
  \<^verbatim>\<open>type module struct { From []*net.IPNet; Header string; MaxHops int; Strict bool }\<close>.
  \<open>MaxHops\<close> is only compared, never computed with, so Go's \<^verbatim>\<open>int\<close> is modelled by
  \<open>int\<close>.
\<close>

record 'net module =
  From :: "'net list"
  Header :: string
  MaxHops :: int
  Strict :: bool

text \<open>
  The part of \<^verbatim>\<open>*http.Request\<close> the handler touches: the remote address and the header
  map (\<^verbatim>\<open>map[string][]string\<close>).
\<close>

record request =
  RemoteAddr :: string
  req_Header :: "string \<rightharpoonup> string list"

text \<open>
  What \<^verbatim>\<open>ServeHTTP\<close> does with a request: it returns an error of its own without calling
  the next handler (\<open>Rejected\<close>, with the error text), or it returns what the next handler
  returns on the request it passes on (\<open>Forward\<close>), or an index expression panics.
\<close>

datatype outcome = Rejected string | Forward request | Panic

section \<open>The operations\<close>

text \<open>\<^verbatim>\<open>http.Header.Get\<close>: the first value stored under the canonical key, or the empty string.\<close>

definition Header_Get :: "('ip, 'net) netlib \<Rightarrow> (string \<rightharpoonup> string list) \<Rightarrow> string \<Rightarrow> string" where
  "Header_Get L h key =
     (case h (CanonicalHeaderKey L key) of
        None \<Rightarrow> []
      | Some [] \<Rightarrow> []
      | Some (v # _) \<Rightarrow> v)"

text \<open>
  \<^verbatim>\<open>strings.Split(s, sep)\<close> for a separator of one byte: cut at every occurrence of the
  separator; the piece after the last one is kept, also when it is empty.
\<close>

function Split :: "string \<Rightarrow> char \<Rightarrow> string list" where
  "Split s sep =
     (if sep \<in> set s
      then takeWhile (\<lambda>c. c \<noteq> sep) s # Split (tl (dropWhile (\<lambda>c. c \<noteq> sep) s)) sep
      else [s])"
  by pat_completeness auto
termination
proof (relation "measure (\<lambda>(s, sep). length s)")
  show "wf (measure (\<lambda>(s, sep). length s))" by simp
next
  fix s :: string and sep :: char
  assume "sep \<in> set s"
  then have "dropWhile (\<lambda>c. c \<noteq> sep) s \<noteq> []" by simp
  then have "length (tl (dropWhile (\<lambda>c. c \<noteq> sep) s)) < length (dropWhile (\<lambda>c. c \<noteq> sep) s)"
    by simp
  also have "\<dots> \<le> length s" by (rule length_dropWhile_le)
  finally show "((tl (dropWhile (\<lambda>c. c \<noteq> sep) s), sep), (s, sep)) \<in> measure (\<lambda>(s, sep). length s)"
    by simp
qed

declare Split.simps [simp del]

text \<open>
  The chain that \<^verbatim>\<open>ServeHTTP\<close> builds from a header value: split at the commas, each
  piece trimmed in place. \<^verbatim>\<open>ServeHTTP\<close> below writes the expression out as the source does;
  the theorems name it \<open>chain\<close>.
\<close>

definition chain :: "('ip, 'net) netlib \<Rightarrow> string \<Rightarrow> string list" where
  "chain L hVal = map (TrimSpace L) (Split hVal (CHR '',''))"

text \<open>A slice index expression \<^verbatim>\<open>parts[i]\<close>: \<open>None\<close> stands for the run-time panic.\<close>

definition index :: "'a list \<Rightarrow> int \<Rightarrow> 'a option" where
  "index xs i = (if 0 \<le> i \<and> i < int (length xs) then Some (xs ! nat i) else None)"

text \<open>
  \<^verbatim>\<open>validSource\<close>: parse the address, then scan \<^verbatim>\<open>m.From\<close> and return at the first
  network that contains it.
\<close>

fun scan_From :: "('ip, 'net) netlib \<Rightarrow> 'net list \<Rightarrow> 'ip \<Rightarrow> bool" where
  "scan_From L [] ip = False"
| "scan_From L (from # rest) ip = (if Contains L from ip then True else scan_From L rest ip)"

definition validSource :: "('ip, 'net) netlib \<Rightarrow> 'net module \<Rightarrow> string \<Rightarrow> bool" where
  "validSource L m addr =
     (case ParseIP L addr of
        None \<Rightarrow> False
      | Some ip \<Rightarrow> scan_From L (From m) ip)"

text \<open>
  The loop \<^verbatim>\<open>for i := len(parts) - 1; i >= 0; i--\<close> of \<^verbatim>\<open>ServeHTTP\<close>, from index \<open>i\<close> on.
  It writes the entry into the request before it tests it. When the loop ends the handler
  falls through to its last line, which calls the next handler.
\<close>

function walk :: "('ip, 'net) netlib \<Rightarrow> 'net module \<Rightarrow> string \<Rightarrow> string list \<Rightarrow> request \<Rightarrow> int \<Rightarrow> outcome" where
  "walk L m port parts req i =
     (if i \<ge> 0 then
        (case index parts i of
           None \<Rightarrow> Panic
         | Some p \<Rightarrow>
             (let req' = req\<lparr>RemoteAddr := JoinHostPort L p port\<rparr> in
              if i > 0 \<and> \<not> validSource L m p then
                (if Strict m then Rejected (''Unrecognized proxy ip address: '' @ p)
                 else Forward req')
              else walk L m port parts req' (i - 1)))
      else Forward req)"
  by pat_completeness auto
termination
  by (relation "measure (\<lambda>(L, m, port, parts, req, i). nat (i + 1))") auto

declare walk.simps [simp del]

definition ServeHTTP :: "('ip, 'net) netlib \<Rightarrow> 'net module \<Rightarrow> request \<Rightarrow> outcome" where
  "ServeHTTP L m req =
     (case SplitHostPort L (RemoteAddr req) of (host, port, err) \<Rightarrow>
        if err \<noteq> None \<or> \<not> validSource L m host then
          (if Strict m then Rejected (''Error reading remote addr: '' @ RemoteAddr req)
           else Forward req)
        else if \<not> validSource L m host then
          (if Strict m then Rejected (''Unrecognized proxy ip address: '' @ host)
           else Forward req)
        else
          (let hVal = Header_Get L (req_Header req) (Header m) in
           if hVal \<noteq> [] then
             (let parts = map (TrimSpace L) (Split hVal (CHR '','')) in
              if MaxHops m \<noteq> - 1 \<and> int (length parts) > MaxHops m then
                Rejected ''Too many forward addresses''
              else
                (case index parts (int (length parts) - 1) of
                   None \<Rightarrow> Panic
                 | Some rightmost \<Rightarrow>
                     (case ParseIP L rightmost of
                        None \<Rightarrow>
                          (if Strict m
                           then Rejected (''Unrecognized proxy ip address: '' @ rightmost)
                           else Forward req)
                      | Some ip \<Rightarrow>
                          walk L m port parts
                            (req\<lparr>RemoteAddr := JoinHostPort L rightmost port\<rparr>)
                            (int (length parts) - 1))))
           else Forward req))"

section \<open>Configuration\<close>

text \<open>
  The table \<^verbatim>\<open>presets\<close> of the source, a Go map from a name to a list of CIDR texts.
  It is a package variable: the functions that read it take the table as their first
  argument, and \<open>presets\<close> is the value the source gives it.
\<close>

definition presets :: "string \<rightharpoonup> string list" where
  "presets = map_of
      [
       (''cloudflare'',
         [''103.21.244.0/22'', ''103.22.200.0/22'', ''103.31.4.0/22'', ''104.16.0.0/12'',
          ''108.162.192.0/18'', ''131.0.72.0/22'', ''141.101.64.0/18'', ''162.158.0.0/15'',
          ''172.64.0.0/13'', ''173.245.48.0/20'', ''188.114.96.0/20'', ''190.93.240.0/20'',
          ''197.234.240.0/22'', ''198.41.128.0/17'', ''2400:cb00::/32'', ''2405:8100::/32'',
          ''2405:b500::/32'', ''2606:4700::/32'', ''2803:f800::/32'', ''2c0f:f248::/32'',
          ''2a06:98c0::/29'']),
       (''gcp'',
         [''130.211.0.0/22'', ''35.191.0.0/16'']),
       (''rackspace'',
         [''10.189.254.0/24'', ''10.189.252.0/24'', ''10.183.248.0/24'', ''10.187.186.0/24'',
          ''10.183.250.0/24'', ''10.187.191.0/24'', ''10.189.255.0/24'', ''10.187.186.0/24'',
          ''10.189.254.0/24'', ''10.183.253.0/24'', ''10.183.250.0/24'', ''10.189.246.0/24'',
          ''10.187.187.0/24'', ''10.187.186.0/24'', ''10.183.252.0/24'', ''10.189.245.0/24'',
          ''10.183.251.0/24'', ''10.187.191.0/24'', ''10.190.254.0/24'', ''10.189.246.0/24'',
          ''10.190.255.0/24'', ''10.187.190.0/24'', ''10.189.247.0/24'', ''10.189.254.0/24'',
          ''10.189.254.0/24''])
      ]"

text \<open>
  The Caddyfile dispenser (\<^verbatim>\<open>*caddyfile.Dispenser\<close>) and \<^verbatim>\<open>strconv\<close> belong to other
  packages, so they too are the fields of a record. \<open>'d\<close> is the state of the dispenser
  (its tokens and its cursor); a method that moves the cursor returns the new state.

  \<^item> \<open>Next\<close>: \<^verbatim>\<open>d.Next(0)\<close>, with the argument the source passes.
  \<^item> \<open>NextArg\<close>, \<open>Val\<close>, \<open>RemainingArgs\<close>: the methods of these names.
  \<^item> \<open>Args\<close>: \<^verbatim>\<open>d.Args(out)\<close> with one target; it takes the target's value and returns
    the result, the target's new value and the new state.
  \<^item> \<open>Err\<close>, \<open>Errf\<close>, \<open>ArgErr\<close>: the error constructors; an error is modelled by its text,
    and \<open>Errf\<close> takes the message already formatted.
  \<^item> \<open>ParseInt\<close>, \<open>ParseBool\<close>: \<^verbatim>\<open>strconv.ParseInt\<close> as the source calls it and
    \<^verbatim>\<open>strconv.ParseBool\<close>, each with its two results.
\<close>

record 'd cfglib =
  Next :: "int \<Rightarrow> 'd \<Rightarrow> bool \<times> 'd"
  NextArg :: "'d \<Rightarrow> bool \<times> 'd"
  Val :: "'d \<Rightarrow> string"
  RemainingArgs :: "'d \<Rightarrow> string list \<times> 'd"
  Args :: "'d \<Rightarrow> string \<Rightarrow> bool \<times> string \<times> 'd"
  Err :: "'d \<Rightarrow> string \<Rightarrow> string"
  Errf :: "'d \<Rightarrow> string \<Rightarrow> string"
  ArgErr :: "'d \<Rightarrow> string"
  ParseInt :: "string \<Rightarrow> int \<times> string option"
  ParseBool :: "string \<Rightarrow> bool \<times> string option"

text \<open>
  \<^verbatim>\<open>addIpRanges\<close> appends to \<^verbatim>\<open>m.From\<close> in place and returns an error: the model returns
  the module as it is when the function returns, and the error (\<open>None\<close> is \<^verbatim>\<open>nil\<close>).
  The recursion follows the table, which may in principle refer to itself, so the function
  is partial: \<open>None\<close> at the outer level means that the call does not return.
\<close>

partial_function (option) addIpRanges ::
  "(string \<rightharpoonup> string list) \<Rightarrow> ('ip, 'net) netlib \<Rightarrow> 'd cfglib \<Rightarrow> 'net module \<Rightarrow> 'd \<Rightarrow> string list
     \<Rightarrow> ('net module \<times> string option) option" where
  "addIpRanges ps L D m d ranges =
     (case ranges of
        [] \<Rightarrow> Some (m, None)
      | v # rest \<Rightarrow>
          (case ps v of
             Some preset \<Rightarrow>
               Option.bind (addIpRanges ps L D m d preset)
                 (\<lambda>(m', err). if err \<noteq> None then Some (m', err)
                               else addIpRanges ps L D m' d rest)
           | None \<Rightarrow>
               (case ParseCIDR L v of
                  Inl e \<Rightarrow> Some (m, Some (Err D d e))
                | Inr (ip, cidr) \<Rightarrow> addIpRanges ps L D (m\<lparr>From := From m @ [cidr]\<rparr>) d rest)))"

text \<open>
  The three argument parsers write through a pointer: the model takes the old value of
  the target and returns its new value, the new dispenser state and the error.
\<close>

definition parseStringArg :: "'d cfglib \<Rightarrow> 'd \<Rightarrow> string \<Rightarrow> string \<times> 'd \<times> string option" where
  "parseStringArg D d out =
     (case Args D d out of (ok, out', d') \<Rightarrow>
        if \<not> ok then (out', d', Some (ArgErr D d')) else (out', d', None))"

definition parseIntArg :: "'d cfglib \<Rightarrow> 'd \<Rightarrow> int \<Rightarrow> int \<times> 'd \<times> string option" where
  "parseIntArg D d out =
     (case parseStringArg D d [] of (strVal, d', err) \<Rightarrow>
        if err = None then (case ParseInt D strVal of (v, err') \<Rightarrow> (v, d', err'))
        else (out, d', err))"

definition parseBoolArg :: "'d cfglib \<Rightarrow> 'd \<Rightarrow> bool \<Rightarrow> bool \<times> 'd \<times> string option" where
  "parseBoolArg D d out =
     (case parseStringArg D d [] of (strVal, d', err) \<Rightarrow>
        if err = None then (case ParseBool D strVal of (v, err') \<Rightarrow> (v, d', err'))
        else (out, d', err))"

text \<open>
  One pass through the body of the loop of \<^verbatim>\<open>UnmarshalCaddyfile\<close>, entered with the
  dispenser on the token that \<^verbatim>\<open>d.Next(0)\<close> reached: the module, the dispenser state and
  the error with which the function returns from inside the body (\<open>None\<close> when the loop
  goes on).
\<close>

definition option_body ::
  "(string \<rightharpoonup> string list) \<Rightarrow> ('ip, 'net) netlib \<Rightarrow> 'd cfglib \<Rightarrow> 'net module \<Rightarrow> 'd
     \<Rightarrow> ('net module \<times> 'd \<times> string option) option" where
  "option_body ps L D m d =
     Option.bind
       (if Val D d = ''header'' then
          (case parseStringArg D d (Header m) of (h, d', err) \<Rightarrow>
             Some (Some (m\<lparr>Header := h\<rparr>, d', err)))
        else if Val D d = ''from'' then
          (case RemainingArgs D d of (args, d') \<Rightarrow>
             Option.bind (addIpRanges ps L D m d' args)
               (\<lambda>(m', err). Some (Some (m', d', err))))
        else if Val D d = ''strict'' then
          (case parseBoolArg D d (Strict m) of (b, d', err) \<Rightarrow>
             Some (Some (m\<lparr>Strict := b\<rparr>, d', err)))
        else if Val D d = ''maxhops'' then
          (case parseIntArg D d (MaxHops m) of (n, d', err) \<Rightarrow>
             Some (Some (m\<lparr>MaxHops := n\<rparr>, d', err)))
        else Some None)
       (\<lambda>r. case r of
          None \<Rightarrow> Some (m, d, Some (Errf D d ''Unknown realip arg''))
        | Some (m', d', err) \<Rightarrow>
            (case err of
               Some e \<Rightarrow> Some (m', d', Some (Errf D d' (''Error parsing '' @ Val D d' @ '': '' @ e)))
             | None \<Rightarrow> Some (m', d', None)))"

text \<open>The loop \<^verbatim>\<open>for d.Next(0) { ... }\<close>; it may run for ever, so it is partial.\<close>

partial_function (option) unmarshal_loop ::
  "(string \<rightharpoonup> string list) \<Rightarrow> ('ip, 'net) netlib \<Rightarrow> 'd cfglib \<Rightarrow> 'net module \<Rightarrow> 'd
     \<Rightarrow> ('net module \<times> 'd \<times> string option) option" where
  "unmarshal_loop ps L D m d =
     (case Next D 0 d of (ok, d1) \<Rightarrow>
        if \<not> ok then Some (m, d1, None)
        else Option.bind (option_body ps L D m d1)
               (\<lambda>(m', d2, err). if err \<noteq> None then Some (m', d2, err)
                                 else unmarshal_loop ps L D m' d2))"

definition UnmarshalCaddyfile ::
  "(string \<rightharpoonup> string list) \<Rightarrow> ('ip, 'net) netlib \<Rightarrow> 'd cfglib \<Rightarrow> 'net module \<Rightarrow> 'd
     \<Rightarrow> ('net module \<times> 'd \<times> string option) option" where
  "UnmarshalCaddyfile ps L D m d =
     (case NextArg D d of (_, d0) \<Rightarrow> unmarshal_loop ps L D m d0)"

text \<open>
  \<^verbatim>\<open>parseCaddyfileHandler\<close> starts from \<^verbatim>\<open>var m module\<close>, the zero value of the struct,
  and returns the module only when unmarshalling gave no error.
\<close>

definition zero_module :: "'net module" where
  "zero_module = \<lparr>From = [], Header = [], MaxHops = 0, Strict = False\<rparr>"

definition parseCaddyfileHandler ::
  "(string \<rightharpoonup> string list) \<Rightarrow> ('ip, 'net) netlib \<Rightarrow> 'd cfglib \<Rightarrow> 'd \<Rightarrow> (string + 'net module) option" where
  "parseCaddyfileHandler ps L D d =
     Option.bind (UnmarshalCaddyfile ps L D zero_module d)
       (\<lambda>(m, d', err). case err of Some e \<Rightarrow> Some (Inl e) | None \<Rightarrow> Some (Inr m))"

text \<open>
  \<open>reads_option ps L D m d v\<close>: the loop of \<^verbatim>\<open>UnmarshalCaddyfile\<close>, started with module \<open>m\<close>
  and dispenser state \<open>d\<close>, evaluates its \<^verbatim>\<open>switch d.Val()\<close> on the value \<open>v\<close> in some
  pass. A configuration supplies the option \<open>v\<close> when this holds.
\<close>

inductive reads_option ::
  "(string \<rightharpoonup> string list) \<Rightarrow> ('ip, 'net) netlib \<Rightarrow> 'd cfglib \<Rightarrow> 'net module \<Rightarrow> 'd \<Rightarrow> string \<Rightarrow> bool"
  for ps L D where
  reads_now: "Next D 0 d = (True, d1) \<Longrightarrow> reads_option ps L D m d (Val D d1)"
| reads_later:
    "Next D 0 d = (True, d1) \<Longrightarrow> option_body ps L D m d1 = Some (m', d2, None)
       \<Longrightarrow> reads_option ps L D m' d2 v \<Longrightarrow> reads_option ps L D m d v"

text \<open>
  The configuration supplies the option \<open>v\<close>: the loop of \<^verbatim>\<open>UnmarshalCaddyfile\<close>, run as
  \<^verbatim>\<open>parseCaddyfileHandler\<close> runs it (zero module, after the first \<^verbatim>\<open>d.NextArg()\<close>),
  reads \<open>v\<close>.
\<close>

definition supplies ::
  "(string \<rightharpoonup> string list) \<Rightarrow> ('ip, 'net) netlib \<Rightarrow> 'd cfglib \<Rightarrow> 'd \<Rightarrow> string \<Rightarrow> bool" where
  "supplies ps L D d v = reads_option ps L D zero_module (snd (NextArg D d)) v"

section \<open>Range expansion as the specification words it\<close>

text \<open>
  \<open>expand ps names out\<close>: \<open>out\<close> is the flat list of literals for the token list
  \<open>names\<close>: a token that is a preset name stands for the expansion of that preset's
  entries, spliced in at its place; every other token stands for itself.
\<close>

inductive expand :: "(string \<rightharpoonup> string list) \<Rightarrow> string list \<Rightarrow> string list \<Rightarrow> bool" for ps where
  expand_Nil: "expand ps [] []"
| expand_preset:
    "ps v = Some preset \<Longrightarrow> expand ps preset xs \<Longrightarrow> expand ps rest ys
       \<Longrightarrow> expand ps (v # rest) (xs @ ys)"
| expand_literal: "ps v = None \<Longrightarrow> expand ps rest ys \<Longrightarrow> expand ps (v # rest) (v # ys)"

text \<open>
  Appending literals one by one: each is parsed as a CIDR and its network appended to
  \<open>From\<close>; the first one that does not parse stops the run with a dispenser error.
\<close>

fun append_literals ::
  "('ip, 'net) netlib \<Rightarrow> 'd cfglib \<Rightarrow> 'net module \<Rightarrow> 'd \<Rightarrow> string list \<Rightarrow> 'net module \<times> string option" where
  "append_literals L D m d [] = (m, None)"
| "append_literals L D m d (t # ts) =
     (case ParseCIDR L t of
        Inl e \<Rightarrow> (m, Some (Err D d e))
      | Inr (ip, cidr) \<Rightarrow> append_literals L D (m\<lparr>From := From m @ [cidr]\<rparr>) d ts)"

text \<open>The networks of the well-formed literals of a list, in the order of the list.\<close>

definition networks :: "('ip, 'net) netlib \<Rightarrow> string list \<Rightarrow> 'net list" where
  "networks L ts =
     concat (map (\<lambda>t. case ParseCIDR L t of Inl e \<Rightarrow> [] | Inr (ip, cidr) \<Rightarrow> [cidr]) ts)"

section \<open>A reference library for evaluating the model\<close>

text \<open>
  To run the model on concrete requests the library record needs an instance. \<open>ipv4lib\<close>
  follows Go's functions on the texts used below: dotted-quad IPv4 addresses and their
  CIDR forms, host:port pairs, ASCII white space and ASCII header names. An address is
  its four bytes; a network is the pair of its masked address and its mask. IPv6 text is
  outside this instance (it does not parse here). The theorems themselves never depend on
  it: they are stated for every library.
\<close>

definition digit :: "char \<Rightarrow> nat option" where
  "digit c = (let n = (of_char c :: nat) in if 48 \<le> n \<and> n \<le> 57 then Some (n - 48) else None)"

fun decimal :: "string \<Rightarrow> nat \<Rightarrow> nat option" where
  "decimal [] acc = Some acc"
| "decimal (c # cs) acc = (case digit c of None \<Rightarrow> None | Some k \<Rightarrow> decimal cs (10 * acc + k))"

text \<open>One field of a dotted quad: digits only, at least one, no leading zero, at most 255.\<close>

definition octet :: "string \<Rightarrow> nat option" where
  "octet s =
     (case s of
        [] \<Rightarrow> None
      | c # cs \<Rightarrow>
          if c = CHR ''0'' \<and> cs \<noteq> [] then None
          else (case decimal s 0 of
                  None \<Rightarrow> None
                | Some v \<Rightarrow> if v > 255 then None else Some v))"

fun octets :: "string list \<Rightarrow> nat list option" where
  "octets [] = Some []"
| "octets (f # fs) =
     (case octet f of
        None \<Rightarrow> None
      | Some v \<Rightarrow> (case octets fs of None \<Rightarrow> None | Some vs \<Rightarrow> Some (v # vs)))"

definition ParseIP4 :: "string \<Rightarrow> nat list option" where
  "ParseIP4 s =
     (let fields = Split s (CHR ''.'') in
      if length fields = 4 then octets fields else None)"

definition mask_byte :: "nat \<Rightarrow> nat" where
  "mask_byte ones = (if ones \<ge> 8 then 255 else 256 - 2 ^ (8 - ones))"

definition CIDRMask :: "nat \<Rightarrow> nat list" where
  "CIDRMask ones = [mask_byte ones, mask_byte (ones - 8), mask_byte (ones - 16), mask_byte (ones - 24)]"

definition Mask :: "nat list \<Rightarrow> nat list \<Rightarrow> nat list" where
  "Mask ip msk = map (\<lambda>(a, b). and a b) (zip ip msk)"

definition ParseCIDR4 :: "string \<Rightarrow> string + (nat list \<times> (nat list \<times> nat list))" where
  "ParseCIDR4 s =
     (if CHR ''/'' \<notin> set s then Inl (''invalid CIDR address: '' @ s)
      else
        (let addr = takeWhile (\<lambda>c. c \<noteq> CHR ''/'') s;
             bits = tl (dropWhile (\<lambda>c. c \<noteq> CHR ''/'') s)
         in case ParseIP4 addr of
              None \<Rightarrow> Inl (''invalid CIDR address: '' @ s)
            | Some ip \<Rightarrow>
                (case decimal bits 0 of
                   None \<Rightarrow> Inl (''invalid CIDR address: '' @ s)
                 | Some n \<Rightarrow>
                     if bits = [] \<or> n > 32 then Inl (''invalid CIDR address: '' @ s)
                     else Inr (ip, (Mask ip (CIDRMask n), CIDRMask n)))))"

definition Contains4 :: "nat list \<times> nat list \<Rightarrow> nat list \<Rightarrow> bool" where
  "Contains4 n ip = (case n of (nn, msk) \<Rightarrow> length ip = length nn \<and> Mask nn msk = Mask ip msk)"

definition JoinHostPort_go :: "string \<Rightarrow> string \<Rightarrow> string" where
  "JoinHostPort_go host port =
     (if CHR '':'' \<in> set host then ''['' @ host @ '']:'' @ port else host @ '':'' @ port)"

definition addrErr :: "string \<Rightarrow> string \<Rightarrow> string \<times> string \<times> string option" where
  "addrErr addr why = ([], [], Some (''address '' @ addr @ '': '' @ why))"

definition SplitHostPort_go :: "string \<Rightarrow> string \<times> string \<times> string option" where
  "SplitHostPort_go hostport =
     (if CHR '':'' \<notin> set hostport then addrErr hostport ''missing port in address''
      else
        (let i = length hostport - 1 - length (takeWhile (\<lambda>c. c \<noteq> CHR '':'') (rev hostport));
             port = drop (i + 1) hostport
         in if hd hostport = CHR ''['' then
              (if CHR '']'' \<notin> set hostport then addrErr hostport ''missing ']' in address''
               else
                 (let e = length (takeWhile (\<lambda>c. c \<noteq> CHR '']'') hostport) in
                  if e + 1 = length hostport then addrErr hostport ''missing port in address''
                  else if e + 1 \<noteq> i then
                    (if hostport ! (e + 1) = CHR '':''
                     then addrErr hostport ''too many colons in address''
                     else addrErr hostport ''missing port in address'')
                  else if CHR ''['' \<in> set (drop 1 hostport)
                    then addrErr hostport ''unexpected '[' in address''
                  else if CHR '']'' \<in> set (drop (e + 1) hostport)
                    then addrErr hostport ''unexpected ']' in address''
                  else (take (e - 1) (drop 1 hostport), port, None)))
            else
              (let host = take i hostport in
               if CHR '':'' \<in> set host then addrErr hostport ''too many colons in address''
               else if CHR ''['' \<in> set hostport then addrErr hostport ''unexpected '[' in address''
               else if CHR '']'' \<in> set hostport then addrErr hostport ''unexpected ']' in address''
               else (host, port, None))))"

definition asciiSpace :: "char \<Rightarrow> bool" where
  "asciiSpace c = (c \<in> set [CHR 0x09, CHR 0x0A, CHR 0x0B, CHR 0x0C, CHR 0x0D, CHR '' ''])"

definition TrimSpace_ascii :: "string \<Rightarrow> string" where
  "TrimSpace_ascii s = rev (dropWhile asciiSpace (rev (dropWhile asciiSpace s)))"

definition toUpper :: "char \<Rightarrow> char" where
  "toUpper c =
     (case map_of (zip ''abcdefghijklmnopqrstuvwxyz'' ''ABCDEFGHIJKLMNOPQRSTUVWXYZ'') c of
        None \<Rightarrow> c | Some u \<Rightarrow> u)"

definition toLower :: "char \<Rightarrow> char" where
  "toLower c =
     (case map_of (zip ''ABCDEFGHIJKLMNOPQRSTUVWXYZ'' ''abcdefghijklmnopqrstuvwxyz'') c of
        None \<Rightarrow> c | Some l \<Rightarrow> l)"

fun canonical :: "bool \<Rightarrow> string \<Rightarrow> string" where
  "canonical upper [] = []"
| "canonical upper (c # cs) =
     (let c' = (if upper then toUpper c else toLower c) in c' # canonical (c' = CHR ''-'') cs)"

definition headerToken :: "char \<Rightarrow> bool" where
  "headerToken c =
     (c \<in> set (''abcdefghijklmnopqrstuvwxyz'' @ ''ABCDEFGHIJKLMNOPQRSTUVWXYZ'' @ ''0123456789''
               @ [CHR ''!'', CHR ''#'', CHR ''$'', CHR ''%'', CHR ''&'', CHR 0x27, CHR ''*'', CHR ''+'',
                  CHR ''-'', CHR ''.'', CHR ''^'', CHR ''_'', CHR 0x60, CHR ''|'', CHR ''~'']))"

definition CanonicalHeaderKey_ascii :: "string \<Rightarrow> string" where
  "CanonicalHeaderKey_ascii s = (if list_all headerToken s then canonical True s else s)"

definition ipv4lib :: "(nat list, nat list \<times> nat list) netlib" where
  "ipv4lib =
     \<lparr>ParseIP = ParseIP4, ParseCIDR = ParseCIDR4, Contains = Contains4,
      SplitHostPort = SplitHostPort_go, JoinHostPort = JoinHostPort_go,
      TrimSpace = TrimSpace_ascii, CanonicalHeaderKey = CanonicalHeaderKey_ascii\<rparr>"

text \<open>
  A dispenser for evaluating the configuration path: the tokens of the file, each with the
  number of its line, and a cursor. \<open>Next\<close> steps to the next token, \<open>NextArg\<close> only when
  that token is on the line of the current one; \<open>Val\<close> is the text under the cursor.
\<close>

type_synonym tokens = "(string \<times> nat) list \<times> int"

definition tok_Next :: "int \<Rightarrow> tokens \<Rightarrow> bool \<times> tokens" where
  "tok_Next n d =
     (case d of (toks, cursor) \<Rightarrow>
        if cursor < int (length toks) - 1 then (True, (toks, cursor + 1)) else (False, d))"

definition tok_NextArg :: "tokens \<Rightarrow> bool \<times> tokens" where
  "tok_NextArg d =
     (case d of (toks, cursor) \<Rightarrow>
        if cursor < 0 then (True, (toks, cursor + 1))
        else if cursor \<ge> int (length toks) - 1 then (False, d)
        else if snd (toks ! nat cursor) = snd (toks ! nat (cursor + 1))
          then (True, (toks, cursor + 1))
        else (False, d))"

definition tok_Val :: "tokens \<Rightarrow> string" where
  "tok_Val d =
     (case d of (toks, cursor) \<Rightarrow>
        if cursor < 0 \<or> cursor \<ge> int (length toks) then [] else fst (toks ! nat cursor))"

function tok_RemainingArgs :: "tokens \<Rightarrow> string list \<times> tokens" where
  "tok_RemainingArgs d =
     (case tok_NextArg d of (ok, d') \<Rightarrow>
        if ok then (case tok_RemainingArgs d' of (args, d'') \<Rightarrow> (tok_Val d' # args, d''))
        else ([], d'))"
  by pat_completeness auto
termination
  by (relation "measure (\<lambda>d. nat (int (length (fst d)) - snd d))")
     (auto simp: tok_NextArg_def split: prod.splits if_splits)

declare tok_RemainingArgs.simps [simp del]

definition tok_Args :: "tokens \<Rightarrow> string \<Rightarrow> bool \<times> string \<times> tokens" where
  "tok_Args d out =
     (case tok_NextArg d of (ok, d') \<Rightarrow> if ok then (True, tok_Val d', d') else (False, out, d'))"

definition tok_Err :: "tokens \<Rightarrow> string \<Rightarrow> string" where
  "tok_Err d msg = msg"

definition ParseBool_go :: "string \<Rightarrow> bool \<times> string option" where
  "ParseBool_go s =
     (if s \<in> set [''1'', ''t'', ''T'', ''TRUE'', ''true'', ''True''] then (True, None)
      else if s \<in> set [''0'', ''f'', ''F'', ''FALSE'', ''false'', ''False''] then (False, None)
      else (False, Some (''strconv.ParseBool: parsing '' @ s @ '': invalid syntax'')))"

definition ParseInt_dec :: "string \<Rightarrow> int \<times> string option" where
  "ParseInt_dec s =
     (let body = (if s \<noteq> [] \<and> (hd s = CHR ''-'' \<or> hd s = CHR ''+'') then tl s else s) in
      case (if body = [] then None else decimal body 0) of
        None \<Rightarrow> (0, Some (''strconv.ParseInt: parsing '' @ s @ '': invalid syntax''))
      | Some n \<Rightarrow> (if s \<noteq> [] \<and> hd s = CHR ''-'' then - int n else int n, None))"

definition tokdisp :: "tokens cfglib" where
  "tokdisp =
     \<lparr>Next = tok_Next, NextArg = tok_NextArg, Val = tok_Val, RemainingArgs = tok_RemainingArgs,
      Args = tok_Args, Err = tok_Err, Errf = tok_Err, ArgErr = (\<lambda>d. ''Wrong argument count''),
      ParseInt = ParseInt_dec, ParseBool = ParseBool_go\<rparr>"

text \<open>
  Concrete modules and requests. The peer \<open>203.0.113.5\<close> is in \<open>203.0.113.0/24\<close>, which
  every module below trusts; \<open>modA\<close> also trusts \<open>198.51.100.0/24\<close>; \<open>modD\<close> allows two hops.
\<close>

definition modA :: "(nat list \<times> nat list) module" where
  "modA = \<lparr>From = [([203, 0, 113, 0], [255, 255, 255, 0]), ([198, 51, 100, 0], [255, 255, 255, 0])],
           Header = ''X-Forwarded-For'', MaxHops = 5, Strict = True\<rparr>"

definition modB :: "(nat list \<times> nat list) module" where
  "modB = \<lparr>From = [([203, 0, 113, 0], [255, 255, 255, 0])],
           Header = ''X-Forwarded-For'', MaxHops = 5, Strict = False\<rparr>"

definition modD :: "(nat list \<times> nat list) module" where
  "modD = \<lparr>From = [([203, 0, 113, 0], [255, 255, 255, 0])],
           Header = ''X-Forwarded-For'', MaxHops = 2, Strict = False\<rparr>"

definition reqAB :: request where
  "reqAB = \<lparr>RemoteAddr = ''203.0.113.5:1234'',
            req_Header = [''X-Forwarded-For'' \<mapsto> [''10.0.0.1, 198.51.100.7'']]\<rparr>"

definition reqD :: request where
  "reqD = \<lparr>RemoteAddr = ''203.0.113.5:1234'',
           req_Header = [''X-Forwarded-For'' \<mapsto> [''a, b, c'']]\<rparr>"

definition reqL :: request where
  "reqL = \<lparr>RemoteAddr = ''203.0.113.5:1234'',
           req_Header = [''X-Forwarded-For'' \<mapsto> [''10.0.0.1, 10.0.0.2, 198.51.100.7'']]\<rparr>"

definition reqE :: request where
  "reqE = \<lparr>RemoteAddr = ''192.0.2.9:4321'',
           req_Header = [''X-Forwarded-For'' \<mapsto> [''10.0.0.1'']]\<rparr>"

definition req_absent :: request where
  "req_absent = \<lparr>RemoteAddr = ''203.0.113.5:1234'', req_Header = Map.empty\<rparr>"

definition req_unknown :: request where
  "req_unknown = \<lparr>RemoteAddr = ''203.0.113.5:1234'',
                  req_Header = [''X-Forwarded-For'' \<mapsto> [''10.0.0.1, unknown'']]\<rparr>"

text \<open>
  For the configuration path: a table in which one preset refers to another, a request
  with a chain of one entry, and a configuration with a \<open>from\<close> and a \<open>header\<close> line.
\<close>

definition nested_presets :: "string \<rightharpoonup> string list" where
  "nested_presets = map_of
     [(''edge'', [''gcp'', ''198.51.100.0/24'']),
      (''gcp'', [''130.211.0.0/22'', ''35.191.0.0/16''])]"

definition req_single :: request where
  "req_single = \<lparr>RemoteAddr = ''203.0.113.5:1234'',
                 req_Header = [''X-Forwarded-For'' \<mapsto> [''10.0.0.1'']]\<rparr>"

definition cfg_no_maxhops :: tokens where
  "cfg_no_maxhops =
     ([(''realip'', 1), (''from'', 2), (''203.0.113.0/24'', 2),
       (''header'', 3), (''X-Forwarded-For'', 3)], - 1)"

text \<open>
  \<open>cfg_at k\<close> is that configuration with the cursor on token \<open>k\<close>; \<open>modW\<close> is the module
  it yields.
\<close>

definition cfg_at :: "int \<Rightarrow> tokens" where
  "cfg_at k = (fst cfg_no_maxhops, k)"

definition modW :: "(nat list \<times> nat list) module" where
  "modW = \<lparr>From = [([203, 0, 113, 0], [255, 255, 255, 0])], Header = ''X-Forwarded-For'',
           MaxHops = 0, Strict = False\<rparr>"

section \<open>The request path: auxiliary facts\<close>

lemma Split_not_Nil: "Split s sep \<noteq> []"
  by (subst Split.simps) simp

lemma chain_not_Nil: "chain L hVal \<noteq> []"
  by (simp add: chain_def Split_not_Nil)

lemma index_last: "xs \<noteq> [] \<Longrightarrow> index xs (int (length xs) - 1) = Some (last xs)"
  by (cases xs rule: rev_cases) (auto simp: index_def nth_append)

lemma walk_0:
  "parts \<noteq> [] \<Longrightarrow> walk L m port parts req 0 = Forward (req\<lparr>RemoteAddr := JoinHostPort L (parts ! 0) port\<rparr>)"
  by (simp add: walk.simps [of _ _ _ _ _ 0] walk.simps [of _ _ _ _ _ "- 1"] index_def)

lemma walk_step:
  "0 < i \<Longrightarrow> i < int (length parts) \<Longrightarrow>
   walk L m port parts req i =
     (if \<not> validSource L m (parts ! nat i) then
        (if Strict m then Rejected (''Unrecognized proxy ip address: '' @ parts ! nat i)
         else Forward (req\<lparr>RemoteAddr := JoinHostPort L (parts ! nat i) port\<rparr>))
      else walk L m port parts (req\<lparr>RemoteAddr := JoinHostPort L (parts ! nat i) port\<rparr>) (i - 1))"
  by (subst walk.simps) (simp add: index_def Let_def)

lemma walk_Suc:
  assumes "Suc k < length parts"
  shows "walk L m port parts req (int (Suc k)) =
     (if \<not> validSource L m (parts ! Suc k) then
        (if Strict m then Rejected (''Unrecognized proxy ip address: '' @ parts ! Suc k)
         else Forward (req\<lparr>RemoteAddr := JoinHostPort L (parts ! Suc k) port\<rparr>))
      else walk L m port parts (req\<lparr>RemoteAddr := JoinHostPort L (parts ! Suc k) port\<rparr>) (int k))"
proof -
  have a: "0 < int (Suc k)" and b: "int (Suc k) < int (length parts)"
    using assms by simp_all
  have c: "nat (int (Suc k)) = Suc k" and d: "int (Suc k) - 1 = int k" by simp_all
  show ?thesis by (simp only: walk_step [OF a b] c d)
qed

lemma walk_trusted:
  "k < length parts \<Longrightarrow> (\<forall>j. 0 < j \<and> j \<le> k \<longrightarrow> validSource L m (parts ! j)) \<Longrightarrow>
   walk L m port parts req (int k) = Forward (req\<lparr>RemoteAddr := JoinHostPort L (parts ! 0) port\<rparr>)"
proof (induction k arbitrary: req)
  case 0
  then show ?case by (simp add: walk_0 [simplified])
next
  case (Suc k)
  then show ?case by (simp add: walk_Suc del: of_nat_Suc)
qed

lemma walk_boundary:
  "k < length parts \<Longrightarrow> 0 < i \<Longrightarrow> i \<le> k \<Longrightarrow> \<not> validSource L m (parts ! i) \<Longrightarrow>
   (\<forall>j. i < j \<and> j \<le> k \<longrightarrow> validSource L m (parts ! j)) \<Longrightarrow>
   walk L m port parts req (int k) =
     (if Strict m then Rejected (''Unrecognized proxy ip address: '' @ parts ! i)
      else Forward (req\<lparr>RemoteAddr := JoinHostPort L (parts ! i) port\<rparr>))"
proof (induction k arbitrary: req)
  case 0
  then show ?case by simp
next
  case (Suc k)
  show ?case
  proof (cases "i = Suc k")
    case True
    with Suc.prems show ?thesis by (simp add: walk_Suc del: of_nat_Suc)
  next
    case False
    with Suc.prems have "i \<le> k" and "validSource L m (parts ! Suc k)" by auto
    with Suc show ?thesis by (simp add: walk_Suc del: of_nat_Suc)
  qed
qed

lemma walk_cases:
  "k < length parts \<Longrightarrow>
   (\<exists>a \<in> set parts. walk L m port parts req (int k) = Forward (req\<lparr>RemoteAddr := JoinHostPort L a port\<rparr>))
   \<or> (\<exists>a \<in> set parts. walk L m port parts req (int k) = Rejected (''Unrecognized proxy ip address: '' @ a))"
proof (induction k arbitrary: req)
  case 0
  then have "parts \<noteq> []" "parts ! 0 \<in> set parts" by auto
  then show ?case by (auto simp: walk_0 [simplified])
next
  case (Suc k)
  then have k: "k < length parts" and mem: "parts ! Suc k \<in> set parts" by auto
  show ?case
  proof (cases "validSource L m (parts ! Suc k)")
    case True
    with Suc.prems Suc.IH [OF k, of "req\<lparr>RemoteAddr := JoinHostPort L (parts ! Suc k) port\<rparr>"]
    show ?thesis by (simp add: walk_Suc del: of_nat_Suc)
  next
    case False
    with Suc.prems mem show ?thesis by (auto simp: walk_Suc simp del: of_nat_Suc)
  qed
qed

lemma validSource_Strict [simp]: "validSource L (m\<lparr>Strict := b\<rparr>) a = validSource L m a"
  by (simp add: validSource_def split: option.split)

lemma validSource_MaxHops [simp]: "validSource L (m\<lparr>MaxHops := n\<rparr>) a = validSource L m a"
  by (simp add: validSource_def split: option.split)

text \<open>The handler past the peer gate, with a header value that is not empty.\<close>

lemma ServeHTTP_chain:
  assumes "SplitHostPort L (RemoteAddr req) = (host, port, None)"
    and "validSource L m host"
    and "Header_Get L (req_Header req) (Header m) = hVal"
    and "hVal \<noteq> []"
  shows "ServeHTTP L m req =
     (if MaxHops m \<noteq> - 1 \<and> int (length (chain L hVal)) > MaxHops m then
        Rejected ''Too many forward addresses''
      else
        (case ParseIP L (last (chain L hVal)) of
           None \<Rightarrow>
             (if Strict m then Rejected (''Unrecognized proxy ip address: '' @ last (chain L hVal))
              else Forward req)
         | Some ip \<Rightarrow>
             walk L m port (chain L hVal)
               (req\<lparr>RemoteAddr := JoinHostPort L (last (chain L hVal)) port\<rparr>)
               (int (length (chain L hVal)) - 1)))"
proof -
  have "index (chain L hVal) (int (length (chain L hVal)) - 1) = Some (last (chain L hVal))"
    using chain_not_Nil by (rule index_last)
  with assms show ?thesis by (simp add: ServeHTTP_def Let_def chain_def [symmetric])
qed

lemma pred_length: "xs \<noteq> [] \<Longrightarrow> int (length xs) - 1 = int (length xs - 1)"
  by (cases xs) simp_all

lemma scan_From_iff: "scan_From L ns ip \<longleftrightarrow> (\<exists>n \<in> set ns. Contains L n ip)"
  by (induction ns) auto

lemma walk_not_hop_limit:
  "k < length parts \<Longrightarrow> walk L m port parts req (int k) \<noteq> Rejected ''Too many forward addresses''"
  using walk_cases [of k parts L m port req] by auto

text \<open>The index expressions of the handler are always in range: it never panics.\<close>

lemma ServeHTTP_no_Panic: "ServeHTTP L m req \<noteq> Panic"
proof -
  obtain host port err where sp: "SplitHostPort L (RemoteAddr req) = (host, port, err)"
    by (cases "SplitHostPort L (RemoteAddr req)") auto
  let ?hVal = "Header_Get L (req_Header req) (Header m)"
  let ?parts = "chain L ?hVal"
  show ?thesis
  proof (cases "err \<noteq> None \<or> \<not> validSource L m host \<or> ?hVal = []")
    case True
    with sp show ?thesis by (auto simp: ServeHTTP_def)
  next
    case False
    then have sp': "SplitHostPort L (RemoteAddr req) = (host, port, None)"
      and v: "validSource L m host" and h: "?hVal \<noteq> []"
      using sp by auto
    have ne: "?parts \<noteq> []" by (rule chain_not_Nil)
    then have k: "length ?parts - 1 < length ?parts" by simp
    have "walk L m port ?parts (req\<lparr>RemoteAddr := JoinHostPort L (last ?parts) port\<rparr>)
            (int (length ?parts) - 1) \<noteq> Panic"
      using walk_cases [OF k, of L m port "req\<lparr>RemoteAddr := JoinHostPort L (last ?parts) port\<rparr>"] ne
      by (auto simp: pred_length)
    then show ?thesis
      by (auto simp: ServeHTTP_chain [OF sp' v refl h] split: option.split)
  qed
qed

section \<open>Evaluating the reference library\<close>

lemmas ipv4_eval =
  ipv4lib_def ParseIP4_def ParseCIDR4_def Contains4_def SplitHostPort_go_def JoinHostPort_go_def
  TrimSpace_ascii_def CanonicalHeaderKey_ascii_def addrErr_def asciiSpace_def toUpper_def
  toLower_def headerToken_def Mask_def CIDRMask_def mask_byte_def octet_def digit_def
  Split.simps Let_def

lemma peer_203: "SplitHostPort ipv4lib ''203.0.113.5:1234'' = (''203.0.113.5'', ''1234'', None)"
  by (simp add: ipv4_eval)

lemma peer_192: "SplitHostPort ipv4lib ''192.0.2.9:4321'' = (''192.0.2.9'', ''4321'', None)"
  by (simp add: ipv4_eval)

lemma key_XFF: "CanonicalHeaderKey ipv4lib ''X-Forwarded-For'' = ''X-Forwarded-For''"
  by (simp add: ipv4_eval)

lemma parse_198: "ParseIP ipv4lib ''198.51.100.7'' = Some [198, 51, 100, 7]"
  by (simp add: ipv4_eval)

lemma parse_unknown: "ParseIP ipv4lib ''unknown'' = None"
  by (simp add: ipv4_eval)

lemma trust_modA:
  "validSource ipv4lib modA ''203.0.113.5''"
  "validSource ipv4lib modA ''198.51.100.7''"
  "\<not> validSource ipv4lib modA ''10.0.0.1''"
  "\<not> validSource ipv4lib modA ''192.0.2.9''"
  by (simp_all add: validSource_def modA_def ipv4_eval)

lemma trust_modB:
  "validSource ipv4lib modB ''203.0.113.5''"
  "\<not> validSource ipv4lib modB ''198.51.100.7''"
  "\<not> validSource ipv4lib modB ''192.0.2.9''"
  "\<not> validSource ipv4lib modB ''not-an-address''"
  by (simp_all add: validSource_def modB_def ipv4_eval)

lemma trust_modD: "validSource ipv4lib modD ''203.0.113.5''"
  by (simp add: validSource_def modD_def ipv4_eval)

lemma chain_AB: "chain ipv4lib ''10.0.0.1, 198.51.100.7'' = [''10.0.0.1'', ''198.51.100.7'']"
  by (simp add: chain_def ipv4_eval)

lemma chain_D: "chain ipv4lib ''a, b, c'' = [''a'', ''b'', ''c'']"
  by (simp add: chain_def ipv4_eval)

lemma chain_unknown: "chain ipv4lib ''10.0.0.1, unknown'' = [''10.0.0.1'', ''unknown'']"
  by (simp add: chain_def ipv4_eval)

lemma chain_single: "chain ipv4lib ''10.0.0.1'' = [''10.0.0.1'']"
  by (simp add: chain_def ipv4_eval)

lemma join_1234:
  "JoinHostPort ipv4lib ''10.0.0.1'' ''1234'' = ''10.0.0.1:1234''"
  "JoinHostPort ipv4lib ''198.51.100.7'' ''1234'' = ''198.51.100.7:1234''"
  by (simp_all add: ipv4_eval)

lemma get_AB: "Header_Get ipv4lib (req_Header reqAB) (Header modA) = ''10.0.0.1, 198.51.100.7''"
  "Header_Get ipv4lib (req_Header reqAB) (Header modB) = ''10.0.0.1, 198.51.100.7''"
  by (simp_all add: Header_Get_def reqAB_def modA_def modB_def key_XFF)

lemma get_D: "Header_Get ipv4lib (req_Header reqD) (Header modD) = ''a, b, c''"
  by (simp add: Header_Get_def reqD_def modD_def key_XFF)

lemma get_unknown: "Header_Get ipv4lib (req_Header req_unknown) (Header modB) = ''10.0.0.1, unknown''"
  by (simp add: Header_Get_def req_unknown_def modB_def key_XFF)

lemma peer_reqs:
  "SplitHostPort ipv4lib (RemoteAddr reqAB) = (''203.0.113.5'', ''1234'', None)"
  "SplitHostPort ipv4lib (RemoteAddr reqD) = (''203.0.113.5'', ''1234'', None)"
  "SplitHostPort ipv4lib (RemoteAddr req_absent) = (''203.0.113.5'', ''1234'', None)"
  "SplitHostPort ipv4lib (RemoteAddr req_unknown) = (''203.0.113.5'', ''1234'', None)"
  "SplitHostPort ipv4lib (RemoteAddr reqE) = (''192.0.2.9'', ''4321'', None)"
  by (simp_all add: reqAB_def reqD_def req_absent_def req_unknown_def reqE_def peer_203 peer_192)

lemma serve_A: "ServeHTTP ipv4lib modA reqAB = Forward (reqAB\<lparr>RemoteAddr := ''10.0.0.1:1234''\<rparr>)"
  by (simp add: ServeHTTP_def peer_reqs trust_modA get_AB chain_def [symmetric] chain_AB
        index_def parse_198 modA_def [THEN arg_cong, of MaxHops] modA_def [THEN arg_cong, of Strict]
        walk.simps join_1234)

lemma serve_B: "ServeHTTP ipv4lib modB reqAB = Forward (reqAB\<lparr>RemoteAddr := ''198.51.100.7:1234''\<rparr>)"
  by (simp add: ServeHTTP_def peer_reqs trust_modB get_AB chain_def [symmetric] chain_AB
        index_def parse_198 modB_def [THEN arg_cong, of MaxHops] modB_def [THEN arg_cong, of Strict]
        walk.simps join_1234)

lemma chain_L: "chain ipv4lib ''10.0.0.1, 10.0.0.2, 198.51.100.7'' = [''10.0.0.1'', ''10.0.0.2'', ''198.51.100.7'']"
  by (simp add: chain_def ipv4_eval)

lemma get_L: "Header_Get ipv4lib (req_Header reqL) (Header modD) = ''10.0.0.1, 10.0.0.2, 198.51.100.7''"
  by (simp add: Header_Get_def reqL_def modD_def key_XFF)

lemma serve_L: "ServeHTTP ipv4lib modD reqL = Rejected ''Too many forward addresses''"
proof -
  have peer: "SplitHostPort ipv4lib (RemoteAddr reqL) = (''203.0.113.5'', ''1234'', None)"
    by (simp add: reqL_def peer_203)
  have ne: "''10.0.0.1, 10.0.0.2, 198.51.100.7'' \<noteq> []" by simp
  show ?thesis
    unfolding ServeHTTP_chain [OF peer trust_modD get_L ne]
    by (simp add: chain_L modD_def)
qed

lemma trust_modD_hop: "\<not> validSource ipv4lib modD ''198.51.100.7''"
  by (simp add: validSource_def modD_def ipv4_eval)

section \<open>The request path: the claims\<close>

text \<open>
  C7. For every address string and every list of configured networks, \<open>validSource\<close>
  is true exactly when the string parses as an IP address and some configured network
  contains that address. The function is total and Boolean: a string that does not parse
  gives \<open>False\<close>, not an error. Which texts parse (IPv4, IPv6) is the library's matter;
  the statement holds whatever \<open>ParseIP\<close> accepts.
\<close>

theorem validSource_iff:
  "(validSource L m a \<longleftrightarrow> (\<exists>ip. ParseIP L a = Some ip \<and> (\<exists>n \<in> set (From m). Contains L n ip)))
   \<and> (ParseIP L a = None \<longrightarrow> validSource L m a = False)"
  by (simp add: validSource_def scan_From_iff split: option.split)

theorem validSource_iff_witness:
  "validSource ipv4lib modB ''203.0.113.5''
   \<and> (\<exists>ip. ParseIP ipv4lib ''203.0.113.5'' = Some ip \<and> (\<exists>n \<in> set (From modB). Contains ipv4lib n ip))
   \<and> ParseIP ipv4lib ''unknown'' = None \<and> validSource ipv4lib modB ''unknown'' = False"
  using validSource_iff [of ipv4lib modB "''203.0.113.5''"] validSource_iff [of ipv4lib modB "''unknown''"]
    trust_modB(1) parse_unknown
  by simp

text \<open>
  C2. A request that reaches the hop-count gate (peer trusted, header value not empty)
  with a chain of \<open>N\<close> entries is rejected with the hop-limit error exactly when
  \<open>MaxHops \<noteq> -1\<close> and \<open>N > MaxHops\<close>. This is so for either value of \<open>Strict\<close>, and with
  \<open>MaxHops = -1\<close> no chain is rejected with that error.
\<close>

theorem hop_limit_iff:
  assumes "SplitHostPort L (RemoteAddr req) = (host, port, None)"
    and "validSource L m host"
    and "Header_Get L (req_Header req) (Header m) = hVal"
    and "hVal \<noteq> []"
  shows "(\<forall>strict.
            ServeHTTP L (m\<lparr>Strict := strict\<rparr>) req = Rejected ''Too many forward addresses''
            \<longleftrightarrow> MaxHops m \<noteq> - 1 \<and> int (length (chain L hVal)) > MaxHops m)
         \<and> (\<forall>strict.
              ServeHTTP L (m\<lparr>Strict := strict, MaxHops := - 1\<rparr>) req
                \<noteq> Rejected ''Too many forward addresses'')"
proof -
  let ?parts = "chain L hVal"
  have ne: "?parts \<noteq> []" by (rule chain_not_Nil)
  then have k: "length ?parts - 1 < length ?parts" by simp
  have main: "ServeHTTP L (m\<lparr>Strict := strict\<rparr>) req = Rejected ''Too many forward addresses''
      \<longleftrightarrow> MaxHops m \<noteq> - 1 \<and> int (length ?parts) > MaxHops m" for strict
  proof -
    let ?m = "m\<lparr>Strict := strict\<rparr>"
    have eq: "ServeHTTP L ?m req =
       (if MaxHops ?m \<noteq> - 1 \<and> int (length ?parts) > MaxHops ?m then
          Rejected ''Too many forward addresses''
        else
          (case ParseIP L (last ?parts) of
             None \<Rightarrow>
               (if Strict ?m then Rejected (''Unrecognized proxy ip address: '' @ last ?parts)
                else Forward req)
           | Some ip \<Rightarrow>
               walk L ?m port ?parts
                 (req\<lparr>RemoteAddr := JoinHostPort L (last ?parts) port\<rparr>)
                 (int (length ?parts) - 1)))"
      using assms by (intro ServeHTTP_chain) simp_all
    show ?thesis
    proof (cases "MaxHops m \<noteq> - 1 \<and> int (length ?parts) > MaxHops m")
      case True
      then show ?thesis by (simp add: eq)
    next
      case False
      have "walk L ?m port ?parts (req\<lparr>RemoteAddr := JoinHostPort L (last ?parts) port\<rparr>)
              (int (length ?parts) - 1) \<noteq> Rejected ''Too many forward addresses''"
        using walk_not_hop_limit [OF k] ne by (simp add: pred_length)
      with False show ?thesis by (auto simp: eq split: option.split)
    qed
  qed
  have unlimited: "ServeHTTP L (m\<lparr>Strict := strict, MaxHops := - 1\<rparr>) req
      \<noteq> Rejected ''Too many forward addresses''" for strict
  proof -
    let ?m = "m\<lparr>Strict := strict, MaxHops := - 1\<rparr>"
    have eq: "ServeHTTP L ?m req =
       (if MaxHops ?m \<noteq> - 1 \<and> int (length ?parts) > MaxHops ?m then
          Rejected ''Too many forward addresses''
        else
          (case ParseIP L (last ?parts) of
             None \<Rightarrow>
               (if Strict ?m then Rejected (''Unrecognized proxy ip address: '' @ last ?parts)
                else Forward req)
           | Some ip \<Rightarrow>
               walk L ?m port ?parts
                 (req\<lparr>RemoteAddr := JoinHostPort L (last ?parts) port\<rparr>)
                 (int (length ?parts) - 1)))"
      using assms by (intro ServeHTTP_chain) simp_all
    have "walk L ?m port ?parts (req\<lparr>RemoteAddr := JoinHostPort L (last ?parts) port\<rparr>)
            (int (length ?parts) - 1) \<noteq> Rejected ''Too many forward addresses''"
      using walk_not_hop_limit [OF k] ne by (simp add: pred_length)
    then show ?thesis by (auto simp: eq split: option.split)
  qed
  from main unlimited show ?thesis by blast
qed

theorem hop_limit_iff_witness:
  "int (length (chain ipv4lib ''a, b, c'')) > MaxHops modD
   \<and> ServeHTTP ipv4lib (modD\<lparr>Strict := True\<rparr>) reqD = Rejected ''Too many forward addresses''
   \<and> ServeHTTP ipv4lib (modD\<lparr>Strict := False\<rparr>) reqD = Rejected ''Too many forward addresses''
   \<and> ServeHTTP ipv4lib (modD\<lparr>Strict := True, MaxHops := - 1\<rparr>) reqD \<noteq> Rejected ''Too many forward addresses''"
proof -
  have ne: "''a, b, c'' \<noteq> []" by simp
  have lim: "MaxHops modD \<noteq> - 1 \<and> int (length (chain ipv4lib ''a, b, c'')) > MaxHops modD"
    by (simp add: modD_def chain_D)
  from hop_limit_iff [OF peer_reqs(2) trust_modD get_D ne] lim show ?thesis by simp
qed

text \<open>
  C3. Peer trusted, chain not empty and within the hop limit, rightmost entry parses,
  every entry at an index above 0 trusted: the next handler runs on the request with the
  leftmost entry (joined with the peer's port) as remote address. Nothing is asked of the
  leftmost entry, nor of \<open>Strict\<close>.
\<close>

theorem resolved_leftmost:
  assumes "SplitHostPort L (RemoteAddr req) = (host, port, None)"
    and "validSource L m host"
    and "Header_Get L (req_Header req) (Header m) = hVal"
    and "hVal \<noteq> []"
    and "MaxHops m = - 1 \<or> int (length (chain L hVal)) \<le> MaxHops m"
    and "ParseIP L (last (chain L hVal)) \<noteq> None"
    and "\<forall>i. 0 < i \<and> i < length (chain L hVal) \<longrightarrow> validSource L m (chain L hVal ! i)"
  shows "ServeHTTP L m req = Forward (req\<lparr>RemoteAddr := JoinHostPort L (chain L hVal ! 0) port\<rparr>)"
proof -
  let ?parts = "chain L hVal"
  have ne: "?parts \<noteq> []" by (rule chain_not_Nil)
  then have k: "length ?parts - 1 < length ?parts" by simp
  have "walk L m port ?parts (req\<lparr>RemoteAddr := JoinHostPort L (last ?parts) port\<rparr>)
          (int (length ?parts - 1))
        = Forward (req\<lparr>RemoteAddr := JoinHostPort L (last ?parts) port\<rparr>
                      \<lparr>RemoteAddr := JoinHostPort L (?parts ! 0) port\<rparr>)"
    using assms(7) by (intro walk_trusted [OF k]) auto
  with assms ne show ?thesis
    by (auto simp: ServeHTTP_chain [OF assms(1-4)] pred_length)
qed

theorem resolved_leftmost_witness:
  "Strict modA \<and> \<not> validSource ipv4lib modA ''10.0.0.1''
   \<and> ServeHTTP ipv4lib modA reqAB = Forward (reqAB\<lparr>RemoteAddr := ''10.0.0.1:1234''\<rparr>)"
proof -
  have ne: "''10.0.0.1, 198.51.100.7'' \<noteq> []" by simp
  have lim: "MaxHops modA = - 1 \<or> int (length (chain ipv4lib ''10.0.0.1, 198.51.100.7'')) \<le> MaxHops modA"
    by (simp add: modA_def chain_AB)
  have rightmost: "ParseIP ipv4lib (last (chain ipv4lib ''10.0.0.1, 198.51.100.7'')) \<noteq> None"
    by (simp add: chain_AB parse_198)
  have hops: "\<forall>i. 0 < i \<and> i < length (chain ipv4lib ''10.0.0.1, 198.51.100.7'')
                \<longrightarrow> validSource ipv4lib modA (chain ipv4lib ''10.0.0.1, 198.51.100.7'' ! i)"
    by (auto simp: chain_AB trust_modA less_Suc_eq)
  have "Strict modA" by (simp add: modA_def)
  with resolved_leftmost [OF peer_reqs(1) trust_modA(1) get_AB(1) ne lim rightmost hops] trust_modA(3)
  show ?thesis by (simp add: chain_AB join_1234)
qed

text \<open>
  C4. Peer trusted and the forwarded header absent, without values, or with the empty
  string as first value: the next handler runs on the unchanged request, whatever
  \<open>Strict\<close>, \<open>MaxHops\<close> and the trusted networks are.
\<close>

theorem header_absent_passthrough:
  assumes "SplitHostPort L (RemoteAddr req) = (host, port, None)"
    and "validSource L m host"
    and "req_Header req (CanonicalHeaderKey L (Header m)) = None
         \<or> req_Header req (CanonicalHeaderKey L (Header m)) = Some []
         \<or> (\<exists>vs. req_Header req (CanonicalHeaderKey L (Header m)) = Some ([] # vs))"
  shows "ServeHTTP L (m\<lparr>Strict := strict, MaxHops := hops\<rparr>) req = Forward req"
proof -
  from assms(3) have "Header_Get L (req_Header req) (Header m) = []"
    by (auto simp: Header_Get_def)
  with assms(1,2) show ?thesis by (simp add: ServeHTTP_def)
qed

theorem header_absent_passthrough_witness:
  "req_Header req_absent (CanonicalHeaderKey ipv4lib (Header modA)) = None
   \<and> ServeHTTP ipv4lib (modA\<lparr>Strict := True, MaxHops := 0\<rparr>) req_absent = Forward req_absent"
proof -
  have absent: "req_Header req_absent (CanonicalHeaderKey ipv4lib (Header modA)) = None"
    by (simp add: req_absent_def)
  then have "req_Header req_absent (CanonicalHeaderKey ipv4lib (Header modA)) = None
         \<or> req_Header req_absent (CanonicalHeaderKey ipv4lib (Header modA)) = Some []
         \<or> (\<exists>vs. req_Header req_absent (CanonicalHeaderKey ipv4lib (Header modA)) = Some ([] # vs))"
    by simp
  from header_absent_passthrough [OF peer_reqs(3) trust_modA(1) this, where strict = True and hops = 0] absent
  show ?thesis by simp
qed

text \<open>
  C5. When the peer address does not split into host and port, or the host does not parse,
  or it is in no trusted network: with \<open>Strict\<close> the request is rejected, otherwise the next
  handler runs on the unchanged request. The outcome is the same for every header map
  \<open>h\<close>: the header plays no part.
\<close>

theorem untrusted_peer:
  assumes "SplitHostPort L (RemoteAddr req) = (host, port, err)"
    and "err \<noteq> None \<or> ParseIP L host = None \<or> \<not> validSource L m host"
  shows "ServeHTTP L m (req\<lparr>req_Header := h\<rparr>) =
           (if Strict m then Rejected (''Error reading remote addr: '' @ RemoteAddr req)
            else Forward (req\<lparr>req_Header := h\<rparr>))"
proof -
  from assms(2) have "err \<noteq> None \<or> \<not> validSource L m host"
    by (auto simp: validSource_def)
  with assms(1) show ?thesis by (auto simp: ServeHTTP_def)
qed

theorem untrusted_peer_witness:
  "\<not> validSource ipv4lib modB ''192.0.2.9'' \<and> \<not> Strict modB \<and> Strict modA
   \<and> ServeHTTP ipv4lib modB reqE = Forward reqE
   \<and> ServeHTTP ipv4lib modA reqE = Rejected ''Error reading remote addr: 192.0.2.9:4321''"
proof -
  have b: "None \<noteq> None \<or> ParseIP ipv4lib ''192.0.2.9'' = None \<or> \<not> validSource ipv4lib modB ''192.0.2.9''"
    using trust_modB(3) by simp
  have a: "None \<noteq> None \<or> ParseIP ipv4lib ''192.0.2.9'' = None \<or> \<not> validSource ipv4lib modA ''192.0.2.9''"
    using trust_modA(4) by simp
  have s: "\<not> Strict modB" "Strict modA" by (simp_all add: modA_def modB_def)
  have r: "RemoteAddr reqE = ''192.0.2.9:4321''" by (simp add: reqE_def)
  from untrusted_peer [OF peer_reqs(5) b, of "req_Header reqE"]
       untrusted_peer [OF peer_reqs(5) a, of "req_Header reqE"] s r trust_modB(3)
  show ?thesis by simp
qed

text \<open>
  C6. Peer trusted, chain not empty and within the hop limit, rightmost entry (index
  \<open>N - 1\<close>) not an IP address: with \<open>Strict\<close> the request is rejected, otherwise the next
  handler runs on the unchanged request, as for an untrusted peer.
\<close>

theorem rightmost_unparseable:
  assumes "SplitHostPort L (RemoteAddr req) = (host, port, None)"
    and "validSource L m host"
    and "Header_Get L (req_Header req) (Header m) = hVal"
    and "hVal \<noteq> []"
    and "MaxHops m = - 1 \<or> int (length (chain L hVal)) \<le> MaxHops m"
    and "ParseIP L (chain L hVal ! (length (chain L hVal) - 1)) = None"
  shows "ServeHTTP L m req =
           (if Strict m then Rejected (''Unrecognized proxy ip address: ''
                                        @ chain L hVal ! (length (chain L hVal) - 1))
            else Forward req)"
proof -
  have ne: "chain L hVal \<noteq> []" by (rule chain_not_Nil)
  then have "last (chain L hVal) = chain L hVal ! (length (chain L hVal) - 1)"
    by (rule last_conv_nth)
  with assms show ?thesis
    by (auto simp: ServeHTTP_chain [OF assms(1-4)])
qed

theorem rightmost_unparseable_witness:
  "ParseIP ipv4lib ''unknown'' = None
   \<and> ServeHTTP ipv4lib modB req_unknown = Forward req_unknown
   \<and> ServeHTTP ipv4lib (modB\<lparr>Strict := True\<rparr>) req_unknown = Rejected ''Unrecognized proxy ip address: unknown''"
proof -
  let ?m = "modB\<lparr>Strict := True\<rparr>"
  have ne: "''10.0.0.1, unknown'' \<noteq> []" by simp
  have lim: "MaxHops modB = - 1 \<or> int (length (chain ipv4lib ''10.0.0.1, unknown'')) \<le> MaxHops modB"
    "MaxHops ?m = - 1 \<or> int (length (chain ipv4lib ''10.0.0.1, unknown'')) \<le> MaxHops ?m"
    by (simp_all add: modB_def chain_unknown)
  have bad: "ParseIP ipv4lib (chain ipv4lib ''10.0.0.1, unknown''
               ! (length (chain ipv4lib ''10.0.0.1, unknown'') - 1)) = None"
    by (simp add: chain_unknown parse_unknown)
  have v: "validSource ipv4lib ?m ''203.0.113.5''" using trust_modB(1) by simp
  have g: "Header_Get ipv4lib (req_Header req_unknown) (Header ?m) = ''10.0.0.1, unknown''"
    using get_unknown by simp
  have s: "\<not> Strict modB" by (simp add: modB_def)
  from rightmost_unparseable [OF peer_reqs(4) trust_modB(1) get_unknown ne lim(1) bad]
       rightmost_unparseable [OF peer_reqs(4) v g ne lim(2) bad] s parse_unknown
  show ?thesis by (simp add: chain_unknown)
qed

text \<open>
  C8. Whenever the next handler runs, the request it sees is the original one, or the
  original one with the remote address replaced by a chain entry joined with the port
  that \<^verbatim>\<open>SplitHostPort\<close> gave for the original remote address. The port is never taken from
  anywhere else. (When the walk reaches index 0 the entry is the leftmost one: see C3.)
\<close>

theorem rewrite_keeps_port:
  assumes "ServeHTTP L m req = Forward req'"
  shows "req' = req \<or>
         (\<exists>host port a. SplitHostPort L (RemoteAddr req) = (host, port, None)
            \<and> a \<in> set (chain L (Header_Get L (req_Header req) (Header m)))
            \<and> req' = req\<lparr>RemoteAddr := JoinHostPort L a port\<rparr>)"
proof -
  obtain host port err where sp: "SplitHostPort L (RemoteAddr req) = (host, port, err)"
    by (cases "SplitHostPort L (RemoteAddr req)") auto
  let ?hVal = "Header_Get L (req_Header req) (Header m)"
  let ?parts = "chain L ?hVal"
  show ?thesis
  proof (cases "err \<noteq> None \<or> \<not> validSource L m host \<or> ?hVal = []")
    case True
    with assms sp show ?thesis by (auto simp: ServeHTTP_def split: if_splits)
  next
    case False
    then have sp': "SplitHostPort L (RemoteAddr req) = (host, port, None)"
      and v: "validSource L m host" and h: "?hVal \<noteq> []"
      using sp by auto
    have ne: "?parts \<noteq> []" by (rule chain_not_Nil)
    then have k: "length ?parts - 1 < length ?parts" by simp
    note eq = ServeHTTP_chain [OF sp' v refl h]
    show ?thesis
    proof (cases "ParseIP L (last ?parts)")
      case None
      with assms show ?thesis by (auto simp: eq split: if_splits)
    next
      case (Some ip)
      let ?r = "req\<lparr>RemoteAddr := JoinHostPort L (last ?parts) port\<rparr>"
      from assms Some ne have w: "walk L m port ?parts ?r (int (length ?parts - 1)) = Forward req'"
        by (auto simp: eq pred_length split: if_splits)
      from walk_cases [OF k, of L m port ?r] w
      obtain a where "a \<in> set ?parts" and "req' = ?r\<lparr>RemoteAddr := JoinHostPort L a port\<rparr>"
        by auto
      with sp' show ?thesis by auto
    qed
  qed
qed

theorem rewrite_keeps_port_witness:
  "ServeHTTP ipv4lib modA reqAB = Forward (reqAB\<lparr>RemoteAddr := ''10.0.0.1:1234''\<rparr>)
   \<and> (reqAB\<lparr>RemoteAddr := ''10.0.0.1:1234''\<rparr> = reqAB
      \<or> (\<exists>host port a. SplitHostPort ipv4lib (RemoteAddr reqAB) = (host, port, None)
            \<and> a \<in> set (chain ipv4lib (Header_Get ipv4lib (req_Header reqAB) (Header modA)))
            \<and> reqAB\<lparr>RemoteAddr := ''10.0.0.1:1234''\<rparr> = reqAB\<lparr>RemoteAddr := JoinHostPort ipv4lib a port\<rparr>))"
  using rewrite_keeps_port [OF serve_A] serve_A by simp

text \<open>
  C1 as stated (the next handler sees the original peer address) fails in two ways.
  Peer \<open>203.0.113.5\<close> trusted, header \<open>10.0.0.1, 198.51.100.7\<close>, \<open>198.51.100.7\<close> not
  trusted, \<open>Strict\<close> off: line 210 of the source has written \<open>198.51.100.7:1234\<close> into the
  request before line 211 tests the entry, and the next handler runs on that request.
  And with \<open>MaxHops = 2\<close> and the header \<open>10.0.0.1, 10.0.0.2, 198.51.100.7\<close> the request is
  rejected at the hop-count gate, which the claim leaves out.
\<close>

theorem passthrough_counterexample:
  "SplitHostPort ipv4lib (RemoteAddr reqAB) = (''203.0.113.5'', ''1234'', None)
   \<and> validSource ipv4lib modB ''203.0.113.5''
   \<and> chain ipv4lib (Header_Get ipv4lib (req_Header reqAB) (Header modB)) = [''10.0.0.1'', ''198.51.100.7'']
   \<and> ParseIP ipv4lib ''198.51.100.7'' \<noteq> None
   \<and> \<not> validSource ipv4lib modB ''198.51.100.7''
   \<and> \<not> Strict modB
   \<and> RemoteAddr reqAB = ''203.0.113.5:1234''
   \<and> ServeHTTP ipv4lib modB reqAB = Forward (reqAB\<lparr>RemoteAddr := ''198.51.100.7:1234''\<rparr>)
   \<and> ServeHTTP ipv4lib modB reqAB \<noteq> Forward reqAB
   \<and> SplitHostPort ipv4lib (RemoteAddr reqL) = (''203.0.113.5'', ''1234'', None)
   \<and> validSource ipv4lib modD ''203.0.113.5''
   \<and> chain ipv4lib (Header_Get ipv4lib (req_Header reqL) (Header modD))
        = [''10.0.0.1'', ''10.0.0.2'', ''198.51.100.7'']
   \<and> \<not> validSource ipv4lib modD ''198.51.100.7''
   \<and> \<not> Strict modD
   \<and> ServeHTTP ipv4lib modD reqL = Rejected ''Too many forward addresses''
   \<and> ServeHTTP ipv4lib modD reqL \<noteq> Forward reqL"
proof -
  have "reqAB\<lparr>RemoteAddr := ''198.51.100.7:1234''\<rparr> \<noteq> reqAB"
    by (simp add: reqAB_def)
  moreover have "\<not> Strict modB" "\<not> Strict modD" by (simp_all add: modB_def modD_def)
  moreover have "RemoteAddr reqAB = ''203.0.113.5:1234''" "RemoteAddr reqL = ''203.0.113.5:1234''"
    by (simp_all add: reqAB_def reqL_def)
  ultimately show ?thesis
    by (simp add: serve_B serve_L peer_203 trust_modB trust_modD trust_modD_hop
          get_AB get_L chain_AB chain_L parse_198)
qed

text \<open>
  C1, as the code has it. Peer trusted, chain not empty and within the hop limit, rightmost
  entry parses, \<open>Strict\<close> off, and \<open>i > 0\<close> the highest index whose entry is not trusted:
  the next handler runs, and the remote address it sees is entry \<open>i\<close> joined with the
  peer's port. The request is not rejected, but it is rewritten.
\<close>

theorem untrusted_hop_permissive:
  assumes "SplitHostPort L (RemoteAddr req) = (host, port, None)"
    and "validSource L m host"
    and "Header_Get L (req_Header req) (Header m) = hVal"
    and "hVal \<noteq> []"
    and "MaxHops m = - 1 \<or> int (length (chain L hVal)) \<le> MaxHops m"
    and "ParseIP L (last (chain L hVal)) \<noteq> None"
    and "0 < i" and "i < length (chain L hVal)"
    and "\<not> validSource L m (chain L hVal ! i)"
    and "\<forall>j. i < j \<and> j < length (chain L hVal) \<longrightarrow> validSource L m (chain L hVal ! j)"
    and "\<not> Strict m"
  shows "ServeHTTP L m req = Forward (req\<lparr>RemoteAddr := JoinHostPort L (chain L hVal ! i) port\<rparr>)"
proof -
  define parts where "parts = chain L hVal"
  have ne: "parts \<noteq> []" by (simp add: parts_def chain_not_Nil)
  then have k: "length parts - 1 < length parts" by simp
  have i: "i \<le> length parts - 1" using assms(8) by (simp add: parts_def)
  have later: "\<forall>j. i < j \<and> j \<le> length parts - 1 \<longrightarrow> validSource L m (parts ! j)"
    using assms(10) ne by (auto simp: parts_def)
  have bad: "\<not> validSource L m (parts ! i)" using assms(9) by (simp add: parts_def)
  obtain ip where ip: "ParseIP L (last parts) = Some ip"
    using assms(6) by (auto simp: parts_def)
  have lim: "\<not> (MaxHops m \<noteq> - 1 \<and> int (length parts) > MaxHops m)"
    using assms(5) by (auto simp: parts_def)
  have "walk L m port parts (req\<lparr>RemoteAddr := JoinHostPort L (last parts) port\<rparr>)
          (int (length parts - 1))
        = Forward (req\<lparr>RemoteAddr := JoinHostPort L (last parts) port\<rparr>
                      \<lparr>RemoteAddr := JoinHostPort L (parts ! i) port\<rparr>)"
    using walk_boundary [OF k assms(7) i bad later] assms(11) by simp
  then have "walk L m port parts (req\<lparr>RemoteAddr := JoinHostPort L (last parts) port\<rparr>)
          (int (length parts) - 1)
        = Forward (req\<lparr>RemoteAddr := JoinHostPort L (parts ! i) port\<rparr>)"
    using ne by (simp add: pred_length)
  with ip lim show ?thesis
    unfolding ServeHTTP_chain [OF assms(1-4)] parts_def [symmetric] by simp
qed

theorem untrusted_hop_permissive_witness:
  "\<not> validSource ipv4lib modB ''198.51.100.7'' \<and> \<not> Strict modB
   \<and> ServeHTTP ipv4lib modB reqAB = Forward (reqAB\<lparr>RemoteAddr := ''198.51.100.7:1234''\<rparr>)"
proof -
  have ne: "''10.0.0.1, 198.51.100.7'' \<noteq> []" by simp
  have lim: "MaxHops modB = - 1 \<or> int (length (chain ipv4lib ''10.0.0.1, 198.51.100.7'')) \<le> MaxHops modB"
    by (simp add: modB_def chain_AB)
  have rightmost: "ParseIP ipv4lib (last (chain ipv4lib ''10.0.0.1, 198.51.100.7'')) \<noteq> None"
    by (simp add: chain_AB parse_198)
  have i: "0 < (1::nat)" "1 < length (chain ipv4lib ''10.0.0.1, 198.51.100.7'')"
    by (simp_all add: chain_AB)
  have bad: "\<not> validSource ipv4lib modB (chain ipv4lib ''10.0.0.1, 198.51.100.7'' ! 1)"
    by (simp add: chain_AB trust_modB)
  have later: "\<forall>j. 1 < j \<and> j < length (chain ipv4lib ''10.0.0.1, 198.51.100.7'')
                 \<longrightarrow> validSource ipv4lib modB (chain ipv4lib ''10.0.0.1, 198.51.100.7'' ! j)"
    by (auto simp: chain_AB)
  have s: "\<not> Strict modB" by (simp add: modB_def)
  from untrusted_hop_permissive [OF peer_reqs(1) trust_modB(1) get_AB(2) ne lim rightmost i bad later s]
    trust_modB(2) s
  show ?thesis by (simp add: chain_AB join_1234)
qed

section \<open>The configuration path: auxiliary facts\<close>

lemma addIpRanges_Nil: "addIpRanges ps L D m d [] = Some (m, None)"
  by (subst addIpRanges.simps) simp

lemma addIpRanges_preset:
  "ps v = Some preset \<Longrightarrow>
   addIpRanges ps L D m d (v # rest) =
     Option.bind (addIpRanges ps L D m d preset)
       (\<lambda>(m', err). if err \<noteq> None then Some (m', err) else addIpRanges ps L D m' d rest)"
  by (subst addIpRanges.simps) simp

lemma addIpRanges_literal:
  "ps v = None \<Longrightarrow>
   addIpRanges ps L D m d (v # rest) =
     (case ParseCIDR L v of
        Inl e \<Rightarrow> Some (m, Some (Err D d e))
      | Inr (ip, cidr) \<Rightarrow> addIpRanges ps L D (m\<lparr>From := From m @ [cidr]\<rparr>) d rest)"
  by (subst addIpRanges.simps) simp

lemma append_literals_append:
  "append_literals L D m d (xs @ ys) =
     (case append_literals L D m d xs of
        (m', None) \<Rightarrow> append_literals L D m' d ys
      | (m', Some e) \<Rightarrow> (m', Some e))"
  by (induction xs arbitrary: m) (auto split: sum.split)

lemma addIpRanges_follows:
  "expand ps ranges out \<Longrightarrow> addIpRanges ps L D m d ranges = Some (append_literals L D m d out)"
proof (induction arbitrary: m rule: expand.induct)
  case expand_Nil
  show ?case by (simp add: addIpRanges_Nil)
next
  case (expand_preset v preset xs rest ys)
  show ?case
  proof (cases "append_literals L D m d xs")
    case (Pair m' err)
    with expand_preset show ?thesis
      by (cases err) (simp_all add: addIpRanges_preset append_literals_append)
  qed
next
  case (expand_literal v rest ys)
  then show ?case
    by (simp add: addIpRanges_literal split: sum.split)
qed

lemma networks_Nil [simp]: "networks L [] = []"
  by (simp add: networks_def)

lemma networks_Cons_Inr [simp]: "ParseCIDR L t = Inr (ip, c) \<Longrightarrow> networks L (t # ts) = c # networks L ts"
  by (simp add: networks_def)

lemma append_literals_good:
  "\<forall>t \<in> set ts. \<exists>ip c. ParseCIDR L t = Inr (ip, c) \<Longrightarrow>
   append_literals L D m d ts = (m\<lparr>From := From m @ networks L ts\<rparr>, None)"
  by (induction ts arbitrary: m) auto

lemma append_literals_bad:
  assumes "\<forall>g \<in> set good. \<exists>ip c. ParseCIDR L g = Inr (ip, c)" and "ParseCIDR L t = Inl e"
  shows "append_literals L D m d (good @ t # later) = (m\<lparr>From := From m @ networks L good\<rparr>, Some (Err D d e))"
  using assms by (simp add: append_literals_append append_literals_good)

lemma expand_literals: "\<forall>e \<in> set p. ps e = None \<Longrightarrow> expand ps p p"
  by (induction p) (auto intro: expand.intros)

lemma presets_None_slash: "CHR ''/'' \<in> set e \<Longrightarrow> presets e = None"
  by (auto simp: presets_def)

lemma presets_entries_aux:
  "(case presets v of None \<Rightarrow> True | Some p \<Rightarrow> \<forall>e \<in> set p. CHR ''/'' \<in> set e)"
  by (simp add: presets_def)

lemma presets_entries: "presets v = Some p \<Longrightarrow> \<forall>e \<in> set p. presets e = None"
  using presets_entries_aux [of v] by (simp add: presets_None_slash)

lemma expand_presets_total: "\<exists>flat. expand presets tokens flat"
proof (induction tokens)
  case Nil
  show ?case by (blast intro: expand.intros)
next
  case (Cons v rest)
  then obtain ys where ys: "expand presets rest ys" by blast
  show ?case
  proof (cases "presets v")
    case None
    with ys show ?thesis by (blast intro: expand.intros)
  next
    case (Some p)
    then have "expand presets p p" by (intro expand_literals presets_entries)
    with Some ys show ?thesis by (blast intro: expand.intros)
  qed
qed

lemma addIpRanges_frame_aux:
  assumes "addIpRanges ps L D m d ranges = Some y"
  shows "MaxHops (fst y) = MaxHops m \<and> Header (fst y) = Header m \<and> Strict (fst y) = Strict m"
proof (rule addIpRanges.raw_induct
    [where P = "\<lambda>ps L D m d ranges y.
                  MaxHops (fst y) = MaxHops m \<and> Header (fst y) = Header m \<and> Strict (fst y) = Strict m",
     OF _ assms], goal_cases)
  case (1 addIpRanges ps L D m d ranges y)
  show ?case
  proof (cases ranges)
    case Nil
    with 1(2) show ?thesis by auto
  next
    case (Cons v rest)
    show ?thesis
    proof (cases "ps v")
      case None
      with 1(2) Cons show ?thesis
        by (cases "ParseCIDR L v") (auto dest!: 1(1))
    next
      case (Some preset)
      with 1(2) Cons obtain m1 e1 where
        first: "addIpRanges ps L D m d preset = Some (m1, e1)" and
        rest: "(if e1 \<noteq> None then Some (m1, e1) else addIpRanges ps L D m1 d rest) = Some y"
        by (auto simp: bind_eq_Some_conv)
      from 1(1) [OF first] have a: "MaxHops m1 = MaxHops m \<and> Header m1 = Header m \<and> Strict m1 = Strict m"
        by simp
      show ?thesis
      proof (cases "e1 = None")
        case True
        with rest have "addIpRanges ps L D m1 d rest = Some y" by simp
        from 1(1) [OF this] a show ?thesis by simp
      next
        case False
        with rest a show ?thesis by auto
      qed
    qed
  qed
qed

lemma option_body_MaxHops:
  assumes "option_body ps L D m d = Some (m', d', err)" and "Val D d \<noteq> ''maxhops''"
  shows "MaxHops m' = MaxHops m"
proof -
  consider (header) "Val D d = ''header''" | (ranges) "Val D d = ''from''"
    | (strict) "Val D d = ''strict''"
    | (other) "Val D d \<noteq> ''header''" "Val D d \<noteq> ''from''" "Val D d \<noteq> ''strict''"
    by blast
  then show ?thesis
  proof cases
    case header
    with assms(1) show ?thesis
      by (auto simp: option_body_def split: prod.splits option.splits)
  next
    case ranges
    obtain args d1 where ra: "RemainingArgs D d = (args, d1)"
      by (cases "RemainingArgs D d") auto
    from assms(1) ranges ra obtain r where
      a: "addIpRanges ps L D m d1 args = Some r" and b: "m' = fst r"
      by (auto simp: option_body_def bind_eq_Some_conv split: option.splits)
    from addIpRanges_frame_aux [OF a] b show ?thesis by simp
  next
    case strict
    with assms(1) show ?thesis
      by (auto simp: option_body_def split: prod.splits option.splits)
  next
    case other
    with assms show ?thesis
      by (auto simp: option_body_def)
  qed
qed

lemma unmarshal_loop_MaxHops_aux:
  assumes "unmarshal_loop ps L D m d = Some y"
  shows "\<not> reads_option ps L D m d ''maxhops'' \<longrightarrow> MaxHops (fst y) = MaxHops m"
proof (rule unmarshal_loop.raw_induct
    [where P = "\<lambda>ps L D m d y.
                  \<not> reads_option ps L D m d ''maxhops'' \<longrightarrow> MaxHops (fst y) = MaxHops m",
     OF _ assms], goal_cases)
  case (1 unmarshal_loop ps L D m d y)
  obtain ok d1 where nx: "Next D 0 d = (ok, d1)" by (cases "Next D 0 d") auto
  show ?case
  proof (cases ok)
    case False
    with 1(2) nx show ?thesis by auto
  next
    case True
    with 1(2) nx obtain m1 d2 e1 where
      body: "option_body ps L D m d1 = Some (m1, d2, e1)" and
      rest: "(if e1 \<noteq> None then Some (m1, d2, e1) else unmarshal_loop ps L D m1 d2) = Some y"
      by (auto simp: bind_eq_Some_conv)
    show ?thesis
    proof
      assume no: "\<not> reads_option ps L D m d ''maxhops''"
      from nx True have nx': "Next D 0 d = (True, d1)" by simp
      from no reads_now [OF nx', of ps L m] have "Val D d1 \<noteq> ''maxhops''" by auto
      from option_body_MaxHops [OF body this] have m1: "MaxHops m1 = MaxHops m" .
      show "MaxHops (fst y) = MaxHops m"
      proof (cases "e1 = None")
        case False
        with rest m1 show ?thesis by auto
      next
        case e: True
        with rest have run: "unmarshal_loop ps L D m1 d2 = Some y" by simp
        from no reads_later [OF nx' body [unfolded e]]
        have "\<not> reads_option ps L D m1 d2 ''maxhops''" by blast
        with 1(1) [OF run] m1 show ?thesis by simp
      qed
    qed
  qed
qed

lemma parseCaddyfileHandler_MaxHops:
  assumes "parseCaddyfileHandler ps L D d = Some (Inr m)"
    and "\<not> supplies ps L D d ''maxhops''"
  shows "MaxHops m = 0"
proof -
  from assms(1) obtain d' where
    "UnmarshalCaddyfile ps L D zero_module d = Some (m, d', None)"
    by (auto simp: parseCaddyfileHandler_def bind_eq_Some_conv split: option.splits)
  then have run: "unmarshal_loop ps L D zero_module (snd (NextArg D d)) = Some (m, d', None)"
    by (simp add: UnmarshalCaddyfile_def split: prod.splits)
  from unmarshal_loop_MaxHops_aux [OF run] assms(2) show ?thesis
    by (simp add: supplies_def zero_module_def)
qed

lemma unmarshal_loop_stop:
  "Next D 0 d = (False, d1) \<Longrightarrow> unmarshal_loop ps L D m d = Some (m, d1, None)"
  by (subst unmarshal_loop.simps) simp

lemma unmarshal_loop_step:
  "Next D 0 d = (True, d1) \<Longrightarrow> option_body ps L D m d1 = Some (m', d2, None) \<Longrightarrow>
   unmarshal_loop ps L D m d = unmarshal_loop ps L D m' d2"
  by (subst unmarshal_loop.simps) simp

lemma reads_option_stop:
  "Next D 0 d = (False, d1) \<Longrightarrow> \<not> reads_option ps L D m d v"
  by (auto elim: reads_option.cases)

lemma reads_option_step:
  "Next D 0 d = (True, d1) \<Longrightarrow> option_body ps L D m d1 = Some (m', d2, None) \<Longrightarrow>
   reads_option ps L D m d v \<longleftrightarrow> Val D d1 = v \<or> reads_option ps L D m' d2 v"
  by (auto elim: reads_option.cases intro: reads_option.intros)

section \<open>Evaluating the configuration path\<close>

lemma cidr_eval:
  "ParseCIDR ipv4lib ''10.0.0.0/8'' = Inr ([10, 0, 0, 0], ([10, 0, 0, 0], [255, 0, 0, 0]))"
  "ParseCIDR ipv4lib ''130.211.0.0/22'' = Inr ([130, 211, 0, 0], ([130, 211, 0, 0], [255, 255, 252, 0]))"
  "ParseCIDR ipv4lib ''35.191.0.0/16'' = Inr ([35, 191, 0, 0], ([35, 191, 0, 0], [255, 255, 0, 0]))"
  "ParseCIDR ipv4lib ''198.51.100.0/24'' = Inr ([198, 51, 100, 0], ([198, 51, 100, 0], [255, 255, 255, 0]))"
  "ParseCIDR ipv4lib ''203.0.113.0/24'' = Inr ([203, 0, 113, 0], ([203, 0, 113, 0], [255, 255, 255, 0]))"
  "ParseCIDR ipv4lib ''bogus'' = Inl ''invalid CIDR address: bogus''"
  by (simp_all add: ipv4_eval)

lemma nested_presets_eval:
  "nested_presets ''edge'' = Some [''gcp'', ''198.51.100.0/24'']"
  "nested_presets ''gcp'' = Some [''130.211.0.0/22'', ''35.191.0.0/16'']"
  "nested_presets ''10.0.0.0/8'' = None"
  "nested_presets ''130.211.0.0/22'' = None"
  "nested_presets ''35.191.0.0/16'' = None"
  "nested_presets ''198.51.100.0/24'' = None"
  "nested_presets ''203.0.113.0/24'' = None"
  "nested_presets ''bogus'' = None"
  by (simp_all add: nested_presets_def)

lemma expand_gcp:
  "expand nested_presets [''130.211.0.0/22'', ''35.191.0.0/16''] [''130.211.0.0/22'', ''35.191.0.0/16'']"
  by (rule expand_literals) (simp add: nested_presets_eval)

lemma expand_edge:
  "expand nested_presets [''gcp'', ''198.51.100.0/24''] [''130.211.0.0/22'', ''35.191.0.0/16'', ''198.51.100.0/24'']"
proof -
  have "expand nested_presets [''198.51.100.0/24''] [''198.51.100.0/24'']"
    by (rule expand_literals) (simp add: nested_presets_eval)
  from expand_preset [OF nested_presets_eval(2) expand_gcp this] show ?thesis by simp
qed

lemma expand_with_edge:
  "expand nested_presets [''10.0.0.0/8'', ''edge'', ''203.0.113.0/24'']
     [''10.0.0.0/8'', ''130.211.0.0/22'', ''35.191.0.0/16'', ''198.51.100.0/24'', ''203.0.113.0/24'']"
proof -
  have "expand nested_presets [''203.0.113.0/24''] [''203.0.113.0/24'']"
    by (rule expand_literals) (simp add: nested_presets_eval)
  from expand_preset [OF nested_presets_eval(1) expand_edge this]
  have "expand nested_presets [''edge'', ''203.0.113.0/24'']
          [''130.211.0.0/22'', ''35.191.0.0/16'', ''198.51.100.0/24'', ''203.0.113.0/24'']"
    by simp
  from expand_literal [OF nested_presets_eval(3) this] show ?thesis .
qed

lemma expand_with_bogus:
  "expand nested_presets [''gcp'', ''bogus'', ''10.0.0.0/8'']
     ([''130.211.0.0/22'', ''35.191.0.0/16''] @ ''bogus'' # [''10.0.0.0/8''])"
proof -
  have "expand nested_presets [''bogus'', ''10.0.0.0/8''] [''bogus'', ''10.0.0.0/8'']"
    by (rule expand_literals) (simp add: nested_presets_eval)
  from expand_preset [OF nested_presets_eval(2) expand_gcp this] show ?thesis by simp
qed

lemmas tok_eval =
  tokdisp_def tok_Next_def tok_NextArg_def tok_Val_def tok_Args_def tok_Err_def
  cfg_no_maxhops_def cfg_at_def

lemma tok_steps:
  "NextArg tokdisp cfg_no_maxhops = (True, cfg_at 0)"
  "Next tokdisp 0 (cfg_at 0) = (True, cfg_at 1)"
  "Next tokdisp 0 (cfg_at 2) = (True, cfg_at 3)"
  "Next tokdisp 0 (cfg_at 4) = (False, cfg_at 4)"
  "Val tokdisp (cfg_at 1) = ''from''"
  "Val tokdisp (cfg_at 3) = ''header''"
  "Args tokdisp (cfg_at 3) out = (True, ''X-Forwarded-For'', cfg_at 4)"
  by (simp_all add: tok_eval)

lemma tok_remaining: "RemainingArgs tokdisp (cfg_at 1) = ([''203.0.113.0/24''], cfg_at 2)"
  by (simp add: tok_eval tok_RemainingArgs.simps)

lemma body_from:
  "option_body presets ipv4lib tokdisp zero_module (cfg_at 1)
     = Some (zero_module\<lparr>From := [([203, 0, 113, 0], [255, 255, 255, 0])]\<rparr>, cfg_at 2, None)"
proof -
  have "presets ''203.0.113.0/24'' = None" by (rule presets_None_slash) simp
  then have "addIpRanges presets ipv4lib tokdisp zero_module (cfg_at 2) [''203.0.113.0/24'']
      = Some (zero_module\<lparr>From := [([203, 0, 113, 0], [255, 255, 255, 0])]\<rparr>, None)"
    by (simp add: addIpRanges_literal cidr_eval addIpRanges_Nil zero_module_def)
  then show ?thesis
    by (simp add: option_body_def tok_steps tok_remaining)
qed

lemma body_header:
  "option_body presets ipv4lib tokdisp (zero_module\<lparr>From := [([203, 0, 113, 0], [255, 255, 255, 0])]\<rparr>) (cfg_at 3)
     = Some (modW, cfg_at 4, None)"
  by (simp add: option_body_def tok_steps parseStringArg_def modW_def zero_module_def)

lemma parse_cfg: "parseCaddyfileHandler presets ipv4lib tokdisp cfg_no_maxhops = Some (Inr modW)"
proof -
  have "unmarshal_loop presets ipv4lib tokdisp zero_module (cfg_at 0) = Some (modW, cfg_at 4, None)"
    by (simp add: unmarshal_loop_step [OF tok_steps(2) body_from]
          unmarshal_loop_step [OF tok_steps(3) body_header]
          unmarshal_loop_stop [OF tok_steps(4)])
  then show ?thesis
    by (simp add: parseCaddyfileHandler_def UnmarshalCaddyfile_def tok_steps)
qed

lemma cfg_supplies:
  "supplies presets ipv4lib tokdisp cfg_no_maxhops v \<longleftrightarrow> v = ''from'' \<or> v = ''header''"
  by (auto simp: supplies_def tok_steps(1)
        reads_option_step [OF tok_steps(2) body_from]
        reads_option_step [OF tok_steps(3) body_header]
        reads_option_stop [OF tok_steps(4)] tok_steps(5,6))

lemma trust_modW: "validSource ipv4lib modW ''203.0.113.5''"
  by (simp add: validSource_def modW_def ipv4_eval)

lemma get_single: "Header_Get ipv4lib (req_Header req_single) (Header modW) = ''10.0.0.1''"
  by (simp add: Header_Get_def req_single_def modW_def key_XFF)

section \<open>The configuration path: the claims\<close>

text \<open>
  C9. Range expansion. Whenever the token list has an expansion \<open>out\<close> in the sense of
  the specification (preset names replaced, recursively, by their entries, in place and in
  order; every other token kept), \<^verbatim>\<open>addIpRanges\<close> returns, and it has parsed the tokens of
  \<open>out\<close> from left to right as CIDR literals: if all are well formed their networks are
  appended to \<open>From\<close> in that order and there is no error; if not, the first malformed one
  makes the call return a dispenser error, after the networks before it were appended.
  This holds for every table, also one whose presets name other presets. With the table
  of the source every token list has an expansion, so the call always returns.
\<close>

theorem addIpRanges_expand:
  assumes "expand ps ranges out"
  shows "(\<exists>flat. expand presets tokens flat
            \<and> addIpRanges presets L D m d tokens = Some (append_literals L D m d flat))
     \<and> ((\<forall>t \<in> set out. \<exists>ip c. ParseCIDR L t = Inr (ip, c)) \<longrightarrow>
          addIpRanges ps L D m d ranges = Some (m\<lparr>From := From m @ networks L out\<rparr>, None))
     \<and> (\<forall>good t later e.
           out = good @ t # later \<and> (\<forall>g \<in> set good. \<exists>ip c. ParseCIDR L g = Inr (ip, c))
             \<and> ParseCIDR L t = Inl e \<longrightarrow>
           addIpRanges ps L D m d ranges
             = Some (m\<lparr>From := From m @ networks L good\<rparr>, Some (Err D d e)))
     \<and> ((\<exists>t \<in> set out. \<exists>e. ParseCIDR L t = Inl e) \<longrightarrow>
          (\<exists>m' err. addIpRanges ps L D m d ranges = Some (m', Some err)))"
proof (intro conjI)
  from expand_presets_total obtain flat where "expand presets tokens flat" ..
  then show "\<exists>flat. expand presets tokens flat
            \<and> addIpRanges presets L D m d tokens = Some (append_literals L D m d flat)"
    by (blast intro: addIpRanges_follows)
next
  show "(\<forall>t \<in> set out. \<exists>ip c. ParseCIDR L t = Inr (ip, c)) \<longrightarrow>
          addIpRanges ps L D m d ranges = Some (m\<lparr>From := From m @ networks L out\<rparr>, None)"
    by (simp add: addIpRanges_follows [OF assms] append_literals_good)
next
  show "\<forall>good t later e.
           out = good @ t # later \<and> (\<forall>g \<in> set good. \<exists>ip c. ParseCIDR L g = Inr (ip, c))
             \<and> ParseCIDR L t = Inl e \<longrightarrow>
           addIpRanges ps L D m d ranges
             = Some (m\<lparr>From := From m @ networks L good\<rparr>, Some (Err D d e))"
    using addIpRanges_follows [OF assms, of L D m d]
    by (auto simp: append_literals_bad)
next
  show "(\<exists>t \<in> set out. \<exists>e. ParseCIDR L t = Inl e) \<longrightarrow>
          (\<exists>m' err. addIpRanges ps L D m d ranges = Some (m', Some err))"
  proof
    assume "\<exists>t \<in> set out. \<exists>e. ParseCIDR L t = Inl e"
    then obtain good t later where out: "out = good @ t # later"
      and t: "\<exists>e. ParseCIDR L t = Inl e"
      and good: "\<forall>g \<in> set good. \<not> (\<exists>e. ParseCIDR L g = Inl e)"
      using split_list_first_prop [of out "\<lambda>t. \<exists>e. ParseCIDR L t = Inl e"] by blast
    from t obtain e where e: "ParseCIDR L t = Inl e" ..
    have "\<forall>g \<in> set good. \<exists>ip c. ParseCIDR L g = Inr (ip, c)"
    proof
      fix g assume "g \<in> set good"
      with good have "\<not> (\<exists>e. ParseCIDR L g = Inl e)" by blast
      then show "\<exists>ip c. ParseCIDR L g = Inr (ip, c)"
        by (cases "ParseCIDR L g") auto
    qed
    from append_literals_bad [OF this e, of D m d later] out
    show "\<exists>m' err. addIpRanges ps L D m d ranges = Some (m', Some err)"
      by (simp add: addIpRanges_follows [OF assms])
  qed
qed

theorem addIpRanges_expand_witness:
  "expand nested_presets [''10.0.0.0/8'', ''edge'', ''203.0.113.0/24'']
     [''10.0.0.0/8'', ''130.211.0.0/22'', ''35.191.0.0/16'', ''198.51.100.0/24'', ''203.0.113.0/24'']
   \<and> addIpRanges nested_presets ipv4lib tokdisp zero_module cfg_no_maxhops
        [''10.0.0.0/8'', ''edge'', ''203.0.113.0/24'']
      = Some (zero_module\<lparr>From :=
                [([10, 0, 0, 0], [255, 0, 0, 0]), ([130, 211, 0, 0], [255, 255, 252, 0]),
                 ([35, 191, 0, 0], [255, 255, 0, 0]), ([198, 51, 100, 0], [255, 255, 255, 0]),
                 ([203, 0, 113, 0], [255, 255, 255, 0])]\<rparr>, None)
   \<and> ParseCIDR ipv4lib ''bogus'' = Inl ''invalid CIDR address: bogus''
   \<and> addIpRanges nested_presets ipv4lib tokdisp zero_module cfg_no_maxhops
        [''gcp'', ''bogus'', ''10.0.0.0/8'']
      = Some (zero_module\<lparr>From :=
                [([130, 211, 0, 0], [255, 255, 252, 0]), ([35, 191, 0, 0], [255, 255, 0, 0])]\<rparr>,
              Some ''invalid CIDR address: bogus'')
   \<and> (\<exists>flat. expand presets [''gcp'', ''198.51.100.0/24''] flat)"
proof -
  let ?out = "[''10.0.0.0/8'', ''130.211.0.0/22'', ''35.191.0.0/16'', ''198.51.100.0/24'', ''203.0.113.0/24'']"
  have good: "\<forall>t \<in> set ?out. \<exists>ip c. ParseCIDR ipv4lib t = Inr (ip, c)"
    by (simp add: cidr_eval)
  have good2: "\<forall>g \<in> set [''130.211.0.0/22'', ''35.191.0.0/16'']. \<exists>ip c. ParseCIDR ipv4lib g = Inr (ip, c)"
    by (simp add: cidr_eval)
  have nets: "networks ipv4lib ?out =
      [([10, 0, 0, 0], [255, 0, 0, 0]), ([130, 211, 0, 0], [255, 255, 252, 0]),
       ([35, 191, 0, 0], [255, 255, 0, 0]), ([198, 51, 100, 0], [255, 255, 255, 0]),
       ([203, 0, 113, 0], [255, 255, 255, 0])]"
    "networks ipv4lib [''130.211.0.0/22'', ''35.191.0.0/16''] =
      [([130, 211, 0, 0], [255, 255, 252, 0]), ([35, 191, 0, 0], [255, 255, 0, 0])]"
    by (simp_all add: networks_def cidr_eval)
  have z: "From (zero_module :: (nat list \<times> nat list) module) = []"
    by (simp add: zero_module_def)
  have e: "Err tokdisp cfg_no_maxhops ''invalid CIDR address: bogus'' = ''invalid CIDR address: bogus''"
    by (simp add: tokdisp_def tok_Err_def)
  note a = addIpRanges_expand [OF expand_with_edge, of "[''gcp'', ''198.51.100.0/24'']"
             ipv4lib tokdisp zero_module cfg_no_maxhops]
  note b = addIpRanges_expand [OF expand_with_bogus, of "[''gcp'', ''198.51.100.0/24'']"
             ipv4lib tokdisp zero_module cfg_no_maxhops]
  from a good have 1: "addIpRanges nested_presets ipv4lib tokdisp zero_module cfg_no_maxhops
        [''10.0.0.0/8'', ''edge'', ''203.0.113.0/24'']
      = Some (zero_module\<lparr>From := From zero_module @ networks ipv4lib ?out\<rparr>, None)"
    by blast
  from b good2 cidr_eval(6) have 2: "addIpRanges nested_presets ipv4lib tokdisp zero_module cfg_no_maxhops
        [''gcp'', ''bogus'', ''10.0.0.0/8'']
      = Some (zero_module\<lparr>From := From zero_module @ networks ipv4lib [''130.211.0.0/22'', ''35.191.0.0/16'']\<rparr>,
              Some (Err tokdisp cfg_no_maxhops ''invalid CIDR address: bogus''))"
    by blast
  from a have 3: "\<exists>flat. expand presets [''gcp'', ''198.51.100.0/24''] flat" by blast
  from 1 2 3 show ?thesis
    by (simp only: nets z e append_Nil expand_with_edge cidr_eval(6) simp_thms)
qed

text \<open>
  C10. When \<^verbatim>\<open>parseCaddyfileHandler\<close> succeeds on a configuration that supplies no
  \<open>maxhops\<close> option, the module has \<open>MaxHops = 0\<close>: the unmarshaller starts from the zero
  value and applies no default. Then every request from a trusted peer with a header
  value that is not empty is rejected with the hop-limit error, for either value of
  \<open>Strict\<close>: a chain has one entry at least.
\<close>

theorem default_maxhops_zero:
  assumes "parseCaddyfileHandler ps L D d = Some (Inr m)"
    and "\<not> supplies ps L D d ''maxhops''"
    and "SplitHostPort L (RemoteAddr req) = (host, port, None)"
    and "validSource L m host"
    and "Header_Get L (req_Header req) (Header m) \<noteq> []"
  shows "MaxHops m = 0
         \<and> (\<forall>strict. ServeHTTP L (m\<lparr>Strict := strict\<rparr>) req = Rejected ''Too many forward addresses'')"
proof -
  have zero: "MaxHops m = 0" using assms(1,2) by (rule parseCaddyfileHandler_MaxHops)
  let ?hVal = "Header_Get L (req_Header req) (Header m)"
  have "0 < length (chain L ?hVal)" using chain_not_Nil by simp
  then have over: "int (length (chain L ?hVal)) > 0" by simp
  have "ServeHTTP L (m\<lparr>Strict := strict\<rparr>) req = Rejected ''Too many forward addresses''" for strict
  proof -
    have v: "validSource L (m\<lparr>Strict := strict\<rparr>) host" using assms(4) by simp
    have g: "Header_Get L (req_Header req) (Header (m\<lparr>Strict := strict\<rparr>)) = ?hVal" by simp
    show ?thesis
      unfolding ServeHTTP_chain [OF assms(3) v g assms(5)] using zero over by simp
  qed
  with zero show ?thesis by simp
qed

theorem default_maxhops_zero_witness:
  "parseCaddyfileHandler presets ipv4lib tokdisp cfg_no_maxhops = Some (Inr modW)
   \<and> chain ipv4lib (Header_Get ipv4lib (req_Header req_single) (Header modW)) = [''10.0.0.1'']
   \<and> MaxHops modW = 0
   \<and> ServeHTTP ipv4lib (modW\<lparr>Strict := True\<rparr>) req_single = Rejected ''Too many forward addresses''
   \<and> ServeHTTP ipv4lib (modW\<lparr>Strict := False\<rparr>) req_single = Rejected ''Too many forward addresses''"
proof -
  have no: "\<not> supplies presets ipv4lib tokdisp cfg_no_maxhops ''maxhops''"
    by (simp add: cfg_supplies)
  have peer: "SplitHostPort ipv4lib (RemoteAddr req_single) = (''203.0.113.5'', ''1234'', None)"
    by (simp add: req_single_def peer_203)
  have hdr: "Header_Get ipv4lib (req_Header req_single) (Header modW) \<noteq> []"
    by (simp add: get_single)
  from default_maxhops_zero [OF parse_cfg no peer trust_modW hdr] parse_cfg
  show ?thesis by (simp add: get_single chain_single)
qed

end
